theory Spec2Isabelle
  imports Complex_Main
begin

section \<open>JavaScript numbers\<close>

text \<open>
  A JavaScript number is modelled as a real number or one of the three special values
  of the language: \<open>NaN\<close>, \<open>Infinity\<close> and \<open>-Infinity\<close>. The special values follow the
  rules of the language, so that a division by zero yields \<open>NaN\<close> or an infinity
  instead of raising. The operations below are exact on finite values and the sign of
  zero is not modelled. One result is rounded: the angle \<open>x - Math.PI / 2\<close> of the
  circular layouts, which the program compares for equality (see \<open>minus_half_pi\<close>).
\<close>

datatype jsnum = NaN | PInf | NInf | Fin real

fun js_add :: "jsnum \<Rightarrow> jsnum \<Rightarrow> jsnum" where
  "js_add (Fin a) (Fin b) = Fin (a + b)"
| "js_add NaN _ = NaN"
| "js_add _ NaN = NaN"
| "js_add PInf NInf = NaN"
| "js_add NInf PInf = NaN"
| "js_add PInf _ = PInf"
| "js_add _ PInf = PInf"
| "js_add NInf _ = NInf"
| "js_add _ NInf = NInf"

fun js_neg :: "jsnum \<Rightarrow> jsnum" where
  "js_neg (Fin a) = Fin (- a)"
| "js_neg NaN = NaN"
| "js_neg PInf = NInf"
| "js_neg NInf = PInf"

definition js_sub :: "jsnum \<Rightarrow> jsnum \<Rightarrow> jsnum" where
  "js_sub a b = js_add a (js_neg b)"

definition signed_inf :: "bool \<Rightarrow> jsnum" where
  "signed_inf positive = (if positive then PInf else NInf)"

fun js_mul :: "jsnum \<Rightarrow> jsnum \<Rightarrow> jsnum" where
  "js_mul (Fin a) (Fin b) = Fin (a * b)"
| "js_mul NaN _ = NaN"
| "js_mul _ NaN = NaN"
| "js_mul PInf (Fin b) = (if b = 0 then NaN else signed_inf (0 < b))"
| "js_mul NInf (Fin b) = (if b = 0 then NaN else signed_inf (b < 0))"
| "js_mul (Fin a) PInf = (if a = 0 then NaN else signed_inf (0 < a))"
| "js_mul (Fin a) NInf = (if a = 0 then NaN else signed_inf (a < 0))"
| "js_mul PInf PInf = PInf"
| "js_mul NInf NInf = PInf"
| "js_mul PInf NInf = NInf"
| "js_mul NInf PInf = NInf"

fun js_div :: "jsnum \<Rightarrow> jsnum \<Rightarrow> jsnum" where
  "js_div (Fin a) (Fin b) =
     (if b = 0 then (if a = 0 then NaN else signed_inf (0 < a)) else Fin (a / b))"
| "js_div NaN _ = NaN"
| "js_div _ NaN = NaN"
| "js_div (Fin a) PInf = Fin 0"
| "js_div (Fin a) NInf = Fin 0"
| "js_div PInf (Fin b) = signed_inf (0 \<le> b)"
| "js_div NInf (Fin b) = signed_inf (b < 0)"
| "js_div _ _ = NaN"

text \<open>The comparisons \<open><\<close>, \<open>>\<close>, \<open><=\<close> and \<open>===\<close>: each is false when an operand is \<open>NaN\<close>.\<close>

fun js_lt :: "jsnum \<Rightarrow> jsnum \<Rightarrow> bool" where
  "js_lt (Fin a) (Fin b) = (a < b)"
| "js_lt NaN _ = False"
| "js_lt _ NaN = False"
| "js_lt _ NInf = False"
| "js_lt PInf _ = False"
| "js_lt NInf _ = True"
| "js_lt _ PInf = True"

definition js_gt :: "jsnum \<Rightarrow> jsnum \<Rightarrow> bool" where
  "js_gt a b = js_lt b a"

definition js_seq :: "jsnum \<Rightarrow> jsnum \<Rightarrow> bool" where
  "js_seq a b = (a \<noteq> NaN \<and> a = b)"

definition js_le :: "jsnum \<Rightarrow> jsnum \<Rightarrow> bool" where
  "js_le a b = (js_lt a b \<or> js_seq a b)"

text \<open>Truthiness of a number: \<open>0\<close> and \<open>NaN\<close> are falsy.\<close>

fun truthy :: "jsnum \<Rightarrow> bool" where
  "truthy (Fin a) = (a \<noteq> 0)"
| "truthy NaN = False"
| "truthy _ = True"

fun is_finite :: "jsnum \<Rightarrow> bool" where
  "is_finite (Fin a) = True"
| "is_finite _ = False"

definition MAX_SAFE_INTEGER :: jsnum where
  "MAX_SAFE_INTEGER = Fin 9007199254740991"

definition MIN_SAFE_INTEGER :: jsnum where
  "MIN_SAFE_INTEGER = Fin (- 9007199254740991)"

section \<open>The tree and its hierarchy\<close>

text \<open>
  A \<open>patristic.Branch\<close>: its \<open>id\<close>, its \<open>length\<close> (the distance to its parent, which
  may be undefined) and its \<open>children\<close>.
\<close>

datatype branch =
  Branch (branch_id: string) (branch_length: "jsnum option") (branch_children: "branch list")

text \<open>
  A node of \<open>d3.hierarchy\<close>: \<open>d.data\<close>, \<open>d.value\<close>, \<open>d.weight\<close>, \<open>d.x\<close>, \<open>d.y\<close> and
  \<open>d.children\<close>. A numeric field that has not been assigned yet holds \<open>NaN\<close>, which is
  what arithmetic makes of \<open>undefined\<close>. The parent pointer is replaced by passing the
  parent's value down the traversal.
\<close>

datatype hnode =
  HNode (node_data: branch) (node_value: jsnum) (node_weight: jsnum)
    (node_x: jsnum) (node_y: jsnum) (node_children: "hnode list")

text \<open>\<open>d3.hierarchy(data, d => d.children)\<close>\<close>

fun hierarchy_of :: "branch \<Rightarrow> hnode"
  and hierarchy_list :: "branch list \<Rightarrow> hnode list" where
  "hierarchy_of (Branch i l cs) = HNode (Branch i l cs) NaN NaN NaN NaN (hierarchy_list cs)"
| "hierarchy_list [] = []"
| "hierarchy_list (c # cs) = hierarchy_of c # hierarchy_list cs"

text \<open>
  The callback of \<open>eachBefore\<close> in \<open>setData\<close>: the node's cumulative value, from the
  parent's value \<open>pv\<close> (0 for the root) and the node's own length (0 when falsy).
\<close>

definition own_length :: "branch \<Rightarrow> jsnum" where
  "own_length b =
     (case branch_length b of
        None \<Rightarrow> Fin 0
      | Some l \<Rightarrow> (if truthy l then l else Fin 0))"

definition track_range :: "jsnum \<Rightarrow> jsnum \<times> jsnum \<Rightarrow> jsnum \<times> jsnum" where
  "track_range v r =
     (let r1 = (if js_lt v (fst r) then (v, snd r) else r)
      in (if js_gt v (snd r1) then (fst r1, v) else r1))"

text \<open>
  \<open>eachBefore\<close>: the callback on the node, then on each child's subtree in order. The
  range is the state the callback updates.
\<close>

fun eachBefore_value :: "jsnum \<Rightarrow> hnode \<Rightarrow> jsnum \<times> jsnum \<Rightarrow> hnode \<times> (jsnum \<times> jsnum)"
  and eachBefore_values :: "jsnum \<Rightarrow> hnode list \<Rightarrow> jsnum \<times> jsnum \<Rightarrow> hnode list \<times> (jsnum \<times> jsnum)"
  where
  "eachBefore_value pv (HNode b v w px py cs) r =
     (let v' = js_add pv (own_length b);
          (cs', r') = eachBefore_values v' cs (track_range v' r)
      in (HNode b v' w px py cs', r'))"
| "eachBefore_values pv [] r = ([], r)"
| "eachBefore_values pv (c # cs) r =
     (let (c', r1) = eachBefore_value pv c r;
          (cs', r2) = eachBefore_values pv cs r1
      in (c' # cs', r2))"

text \<open>\<open>.each(d => d.value /= this.range[1])\<close>\<close>

fun each_divide :: "jsnum \<Rightarrow> hnode \<Rightarrow> hnode"
  and each_divide_list :: "jsnum \<Rightarrow> hnode list \<Rightarrow> hnode list" where
  "each_divide m (HNode b v w px py cs) = HNode b (js_div v m) w px py (each_divide_list m cs)"
| "each_divide_list m [] = []"
| "each_divide_list m (c # cs) = each_divide m c # each_divide_list m cs"

text \<open>
  The data part of \<open>setData\<close>: the range starts at
  \<open>[MAX_SAFE_INTEGER, MIN_SAFE_INTEGER]\<close>; the result is the new range and hierarchy.
\<close>

definition normalize :: "branch \<Rightarrow> (jsnum \<times> jsnum) \<times> hnode" where
  "normalize d =
     (let (h, r) = eachBefore_value (Fin 0) (hierarchy_of d) (MAX_SAFE_INTEGER, MIN_SAFE_INTEGER)
      in (r, each_divide (snd r) h))"

text \<open>All nodes of a hierarchy, the node itself first.\<close>

fun nodes_of :: "hnode \<Rightarrow> hnode list"
  and nodes_of_list :: "hnode list \<Rightarrow> hnode list" where
  "nodes_of (HNode b v w px py cs) = HNode b v w px py cs # nodes_of_list cs"
| "nodes_of_list [] = []"
| "nodes_of_list (c # cs) = nodes_of c @ nodes_of_list cs"

section \<open>More arithmetic of the language\<close>

text \<open>\<open>Math.min\<close>, \<open>Math.cos\<close>, \<open>Math.sin\<close>, \<open>Math.atan\<close> and the remainder \<open>%\<close>, whose
  result has the sign of the dividend.\<close>

definition js_min :: "jsnum \<Rightarrow> jsnum \<Rightarrow> jsnum" where
  "js_min a b = (if a = NaN \<or> b = NaN then NaN else if js_lt b a then b else a)"

fun js_cos :: "jsnum \<Rightarrow> jsnum" where
  "js_cos (Fin a) = Fin (cos a)"
| "js_cos _ = NaN"

fun js_sin :: "jsnum \<Rightarrow> jsnum" where
  "js_sin (Fin a) = Fin (sin a)"
| "js_sin _ = NaN"

fun js_atan :: "jsnum \<Rightarrow> jsnum" where
  "js_atan (Fin a) = Fin (arctan a)"
| "js_atan PInf = Fin (pi / 2)"
| "js_atan NInf = Fin (- pi / 2)"
| "js_atan NaN = NaN"

definition trunc :: "real \<Rightarrow> int" where
  "trunc r = (if 0 \<le> r then \<lfloor>r\<rfloor> else \<lceil>r\<rceil>)"

definition real_rem :: "real \<Rightarrow> real \<Rightarrow> real" where
  "real_rem a b = a - b * of_int (trunc (a / b))"

fun js_rem :: "jsnum \<Rightarrow> jsnum \<Rightarrow> jsnum" where
  "js_rem (Fin a) (Fin b) = (if b = 0 then NaN else Fin (real_rem a b))"
| "js_rem (Fin a) PInf = Fin a"
| "js_rem (Fin a) NInf = Fin a"
| "js_rem _ _ = NaN"

definition Math_PI :: jsnum where
  "Math_PI = Fin pi"

section \<open>Strings built from numbers\<close>

text \<open>
  A string that the code builds by concatenation or as a template literal is kept as the
  list of its pieces: the literal text and the numbers, in order. How a number prints is
  left to the language.
\<close>

datatype piece = Lit string | Num jsnum

type_synonym template = "piece list"



section \<open>Display options\<close>

datatype layout = Horizontal | Vertical | Circular

datatype ttype = Tree | Weighted | Dendrogram

datatype mode = Smooth | Square | Straight

definition validLayouts :: "string list" where
  "validLayouts = [''horizontal'', ''vertical'', ''circular'']"

definition validTypes :: "string list" where
  "validTypes = [''tree'', ''weighted'', ''dendrogram'']"

definition validModes :: "string list" where
  "validModes = [''smooth'', ''square'', ''straight'']"

text \<open>The option a valid name stands for.\<close>

definition layout_named :: "string \<Rightarrow> layout" where
  "layout_named s =
     (if s = ''horizontal'' then Horizontal else if s = ''vertical'' then Vertical else Circular)"

definition type_named :: "string \<Rightarrow> ttype" where
  "type_named s = (if s = ''tree'' then Tree else if s = ''weighted'' then Weighted else Dendrogram)"

definition mode_named :: "string \<Rightarrow> mode" where
  "mode_named s = (if s = ''smooth'' then Smooth else if s = ''square'' then Square else Straight)"

section \<open>Values, errors and what an object holds\<close>

datatype error = Error string | TypeError

datatype jsval = Undefined | Null | NumV jsnum | StrV string | NodeV hnode

text \<open>
  What can be found under a name in an object: a function, which is called with the
  array of the arguments and returns or raises, or a value that is no function, of which
  only the truthiness matters (\<open>undefined\<close>, \<open>null\<close>, \<open>0\<close>, \<open>''\<close>, \<open>false\<close> and \<open>NaN\<close> are
  falsy).
\<close>

datatype stored = Function "jsval list \<Rightarrow> error + jsval" | NotFunction bool

section \<open>Links, nodes and their transformers\<close>

record link =
  source :: hnode
  target :: hnode

definition getX :: "hnode \<Rightarrow> jsnum" where
  "getX d = node_x d"

definition getY :: "hnode \<Rightarrow> jsnum" where
  "getY d = node_y d"

definition getLength :: "hnode \<Rightarrow> jsnum" where
  "getLength d = node_weight d"

text \<open>
  What the code takes from d3 and from the language without fixing it: the positions
  that \<open>d3.tree\<close> and \<open>d3.cluster\<close> assign for a size (here by the path of child indices
  from the root), \<open>toLocaleString\<close>, the rounding \<open>fl\<close> of a real number to a number of the
  language, and the members that every object inherits from \<open>Object.prototype\<close>, by name.
\<close>

record d3env =
  d3_tree :: "jsnum \<times> jsnum \<Rightarrow> hnode \<Rightarrow> nat list \<Rightarrow> jsnum \<times> jsnum"
  d3_cluster :: "jsnum \<times> jsnum \<Rightarrow> hnode \<Rightarrow> nat list \<Rightarrow> jsnum \<times> jsnum"
  toLocaleString :: "jsnum \<Rightarrow> string"
  fl :: "real \<Rightarrow> real"
  Object_prototype :: "string \<rightharpoonup> stored"

text \<open>
  \<open>x - Math.PI / 2\<close>, the angle of a point in the circular layouts: the difference is
  rounded to a number of the language, so that two angles that differ may give the same
  result.
\<close>

definition minus_half_pi :: "d3env \<Rightarrow> jsnum \<Rightarrow> jsnum" where
  "minus_half_pi env x =
     (case js_sub x (js_div Math_PI (Fin 2)) of
        Fin r \<Rightarrow> Fin (fl env r)
      | v \<Rightarrow> v)"

text \<open>\<open>circularPoint(x, y)\<close>: \<open>y = +y\<close>, then \<open>x -= Math.PI / 2\<close>, then the two products.\<close>

definition circularPoint :: "d3env \<Rightarrow> jsnum \<Rightarrow> jsnum \<Rightarrow> jsnum \<times> jsnum" where
  "circularPoint env px py =
     (let y1 = py;
          x1 = minus_half_pi env px
      in (js_mul y1 (js_cos x1), js_mul y1 (js_sin x1)))"

text \<open>
  The link generators of d3 (\<open>d3.linkHorizontal\<close>, \<open>d3.linkVertical\<close>, \<open>d3.linkRadial\<close>),
  applied to the accessors' values at the source and at the target: a move to the first
  point and a cubic curve to the second, with the two control points half way along the
  second coordinate. \<open>d3.linkRadial\<close> takes the four points from an angle and a radius by
  d3's \<open>pointRadial\<close>, which has the body of \<open>circularPoint\<close>:
  \<open>[(y = +y) * Math.cos(x -= Math.PI / 2), y * Math.sin(x)]\<close>.
\<close>

definition pointRadial :: "d3env \<Rightarrow> jsnum \<Rightarrow> jsnum \<Rightarrow> jsnum \<times> jsnum" where
  "pointRadial env px py =
     (let y1 = py;
          x1 = minus_half_pi env px
      in (js_mul y1 (js_cos x1), js_mul y1 (js_sin x1)))"

definition curve_to :: "jsnum \<times> jsnum \<Rightarrow> jsnum \<times> jsnum \<Rightarrow> jsnum \<times> jsnum \<Rightarrow> jsnum \<times> jsnum \<Rightarrow> template" where
  "curve_to p0 p1 p2 p3 =
     [Lit ''M'', Num (fst p0), Lit '','', Num (snd p0),
      Lit ''C'', Num (fst p1), Lit '','', Num (snd p1), Lit '','', Num (fst p2), Lit '','',
      Num (snd p2), Lit '','', Num (fst p3), Lit '','', Num (snd p3)]"

definition linkHorizontal :: "jsnum \<times> jsnum \<Rightarrow> jsnum \<times> jsnum \<Rightarrow> template" where
  "linkHorizontal s t =
     (let xm = js_div (js_add (fst s) (fst t)) (Fin 2)
      in curve_to s (xm, snd s) (xm, snd t) t)"

definition linkVertical :: "jsnum \<times> jsnum \<Rightarrow> jsnum \<times> jsnum \<Rightarrow> template" where
  "linkVertical s t =
     (let ym = js_div (js_add (snd s) (snd t)) (Fin 2)
      in curve_to s (fst s, ym) (fst t, ym) t)"

definition linkRadial :: "d3env \<Rightarrow> jsnum \<times> jsnum \<Rightarrow> jsnum \<times> jsnum \<Rightarrow> template" where
  "linkRadial env s t =
     (let ym = js_div (js_add (snd s) (snd t)) (Fin 2)
      in curve_to (pointRadial env (fst s) (snd s)) (pointRadial env (fst s) ym)
           (pointRadial env (fst t) ym) (pointRadial env (fst t) (snd t)))"

text \<open>The body of the two straight circular link transformers; \<open>rad\<close> reads the radius
  (\<open>d.y\<close> in the tree table, \<open>d.weight\<close> in the weighted one).\<close>

definition straight_circular :: "d3env \<Rightarrow> (hnode \<Rightarrow> jsnum) \<Rightarrow> link \<Rightarrow> template" where
  "straight_circular env rad d =
     (let startAngle = minus_half_pi env (node_x (source d));
          startRadius = rad (source d);
          endAngle = minus_half_pi env (node_x (target d));
          endRadius = rad (target d);
          x0 = js_cos startAngle;
          y0 = js_sin startAngle;
          x1 = js_cos endAngle;
          y1 = js_sin endAngle
      in [Lit ''M'', Num (js_mul startRadius x0), Lit '','', Num (js_mul startRadius y0),
          Lit ''L'', Num (js_mul endRadius x1), Lit '','', Num (js_mul endRadius y1)])"

text \<open>The body of the two square circular link transformers: the arc is left out when
  the two angles, as computed, are equal.\<close>

definition square_circular :: "d3env \<Rightarrow> (hnode \<Rightarrow> jsnum) \<Rightarrow> link \<Rightarrow> template" where
  "square_circular env rad d =
     (let startAngle = minus_half_pi env (node_x (source d));
          startRadius = rad (source d);
          endAngle = minus_half_pi env (node_x (target d));
          endRadius = rad (target d);
          x0 = js_cos startAngle;
          y0 = js_sin startAngle;
          x1 = js_cos endAngle;
          y1 = js_sin endAngle
      in [Lit ''M'', Num (js_mul startRadius x0), Lit '','', Num (js_mul startRadius y0)] @
         (if js_seq endAngle startAngle then []
          else [Lit ''A'', Num startRadius, Lit '','', Num startRadius, Lit '' 0 0 '',
                Num (if js_gt endAngle startAngle then Fin 1 else Fin 0), Lit '' '',
                Num (js_mul startRadius x1), Lit '','', Num (js_mul startRadius y1)]) @
         [Lit ''L'', Num (js_mul endRadius x1), Lit '','', Num (js_mul endRadius y1)])"

fun linkTransformers_tree :: "d3env \<Rightarrow> mode \<Rightarrow> layout \<Rightarrow> link \<Rightarrow> template" where
  "linkTransformers_tree env Smooth Horizontal d =
     linkHorizontal (getY (source d), getX (source d)) (getY (target d), getX (target d))"
| "linkTransformers_tree env Smooth Vertical d =
     linkVertical (getX (source d), getY (source d)) (getX (target d), getY (target d))"
| "linkTransformers_tree env Smooth Circular d =
     linkRadial env (getX (source d), getY (source d)) (getX (target d), getY (target d))"
| "linkTransformers_tree env Straight Horizontal d =
     [Lit ''M'', Num (node_y (source d)), Lit '' '', Num (node_x (source d)), Lit '' L '',
      Num (node_y (target d)), Lit '' '', Num (node_x (target d))]"
| "linkTransformers_tree env Straight Vertical d =
     [Lit ''M'', Num (node_x (source d)), Lit '' '', Num (node_y (source d)), Lit '' L '',
      Num (node_x (target d)), Lit '' '', Num (node_y (target d))]"
| "linkTransformers_tree env Straight Circular d = straight_circular env node_y d"
| "linkTransformers_tree env Square Horizontal d =
     [Lit ''M'', Num (node_y (source d)), Lit '' '', Num (node_x (source d)), Lit '' V '',
      Num (node_x (target d)), Lit '' H '', Num (node_y (target d))]"
| "linkTransformers_tree env Square Vertical d =
     [Lit ''M'', Num (node_x (source d)), Lit '' '', Num (node_y (source d)), Lit '' H '',
      Num (node_x (target d)), Lit '' V '', Num (node_y (target d))]"
| "linkTransformers_tree env Square Circular d = square_circular env node_y d"

fun linkTransformers_weighted :: "d3env \<Rightarrow> mode \<Rightarrow> layout \<Rightarrow> link \<Rightarrow> template" where
  "linkTransformers_weighted env Smooth Horizontal d =
     linkHorizontal (getLength (source d), getX (source d))
       (getLength (target d), getX (target d))"
| "linkTransformers_weighted env Smooth Vertical d =
     linkVertical (getX (source d), getLength (source d))
       (getX (target d), getLength (target d))"
| "linkTransformers_weighted env Smooth Circular d =
     linkRadial env (getX (source d), getLength (source d))
       (getX (target d), getLength (target d))"
| "linkTransformers_weighted env Straight Horizontal d =
     [Lit ''M'', Num (node_weight (source d)), Lit '' '', Num (node_x (source d)), Lit '' L '',
      Num (node_weight (target d)), Lit '' '', Num (node_x (target d))]"
| "linkTransformers_weighted env Straight Vertical d =
     [Lit ''M'', Num (node_x (source d)), Lit '' '', Num (node_weight (source d)), Lit '' L '',
      Num (node_x (target d)), Lit '' '', Num (node_weight (target d))]"
| "linkTransformers_weighted env Straight Circular d = straight_circular env node_weight d"
| "linkTransformers_weighted env Square Horizontal d =
     [Lit ''M'', Num (node_weight (source d)), Lit '' '', Num (node_x (source d)), Lit '' V '',
      Num (node_x (target d)), Lit '' H '', Num (node_weight (target d))]"
| "linkTransformers_weighted env Square Vertical d =
     [Lit ''M'', Num (node_x (source d)), Lit '' '', Num (node_weight (source d)), Lit '' H '',
      Num (node_x (target d)), Lit '' V '', Num (node_weight (target d))]"
| "linkTransformers_weighted env Square Circular d = square_circular env node_weight d"

text \<open>\<open>linkTransformers.dendrogram = linkTransformers.tree\<close>\<close>

fun linkTransformers :: "d3env \<Rightarrow> ttype \<Rightarrow> mode \<Rightarrow> layout \<Rightarrow> link \<Rightarrow> template" where
  "linkTransformers env Tree = linkTransformers_tree env"
| "linkTransformers env Weighted = linkTransformers_weighted env"
| "linkTransformers env Dendrogram = linkTransformers_tree env"

text \<open>An array of two numbers in a template literal prints as the two numbers with a
  comma between them.\<close>

fun nodeTransformers_tree :: "d3env \<Rightarrow> layout \<Rightarrow> hnode \<Rightarrow> template" where
  "nodeTransformers_tree env Horizontal d =
     [Lit ''translate('', Num (node_y d), Lit '', '', Num (node_x d), Lit '')'']"
| "nodeTransformers_tree env Vertical d =
     [Lit ''translate('', Num (node_x d), Lit '', '', Num (node_y d), Lit '')'']"
| "nodeTransformers_tree env Circular d =
     (let p = circularPoint env (node_x d) (node_y d)
      in [Lit ''translate('', Num (fst p), Lit '','', Num (snd p), Lit '')''])"

fun nodeTransformers_weighted :: "d3env \<Rightarrow> layout \<Rightarrow> hnode \<Rightarrow> template" where
  "nodeTransformers_weighted env Horizontal d =
     [Lit ''translate('', Num (node_weight d), Lit '', '', Num (node_x d), Lit '')'']"
| "nodeTransformers_weighted env Vertical d =
     [Lit ''translate('', Num (node_x d), Lit '', '', Num (node_weight d), Lit '')'']"
| "nodeTransformers_weighted env Circular d =
     (let p = circularPoint env (node_x d) (node_weight d)
      in [Lit ''translate('', Num (fst p), Lit '','', Num (snd p), Lit '')''])"

text \<open>\<open>nodeTransformers.dendrogram = nodeTransformers.tree\<close>\<close>

fun nodeTransformers :: "d3env \<Rightarrow> ttype \<Rightarrow> layout \<Rightarrow> hnode \<Rightarrow> template" where
  "nodeTransformers env Tree = nodeTransformers_tree env"
| "nodeTransformers env Weighted = nodeTransformers_weighted env"
| "nodeTransformers env Dendrogram = nodeTransformers_tree env"

definition radToDeg :: jsnum where
  "radToDeg = js_div (Fin 180) Math_PI"

definition half_sum :: "jsnum \<Rightarrow> jsnum \<Rightarrow> jsnum" where
  "half_sum a b = js_div (js_add a b) (Fin 2)"

text \<open>The bodies of the label transformers that the tree and the weighted table share
  up to the reading of the depth (\<open>d.y\<close> or \<open>d.weight\<close>).\<close>

definition label_straight_horizontal :: "(hnode \<Rightarrow> jsnum) \<Rightarrow> link \<Rightarrow> template" where
  "label_straight_horizontal dep l =
     [Lit ''translate('', Num (half_sum (dep (source l)) (dep (target l))), Lit '', '',
      Num (half_sum (node_x (source l)) (node_x (target l))), Lit '') rotate('',
      Num (js_mul (js_atan (js_div (js_sub (node_x (target l)) (node_x (source l)))
                                   (js_sub (dep (target l)) (dep (source l))))) radToDeg),
      Lit '')'']"

definition label_straight_vertical :: "(hnode \<Rightarrow> jsnum) \<Rightarrow> link \<Rightarrow> template" where
  "label_straight_vertical dep l =
     [Lit ''translate('', Num (half_sum (node_x (source l)) (node_x (target l))), Lit '', '',
      Num (half_sum (dep (source l)) (dep (target l))), Lit '') rotate('',
      Num (js_mul (js_atan (js_div (js_sub (dep (source l)) (dep (target l)))
                                   (js_sub (node_x (source l)) (node_x (target l))))) radToDeg),
      Lit '')'']"

definition label_straight_circular :: "d3env \<Rightarrow> (hnode \<Rightarrow> jsnum) \<Rightarrow> link \<Rightarrow> template" where
  "label_straight_circular env dep l =
     (let s = circularPoint env (node_x (source l)) (dep (source l));
          t = circularPoint env (node_x (target l)) (dep (target l))
      in [Lit ''translate('', Num (half_sum (fst s) (fst t)), Lit '', '',
          Num (half_sum (snd s) (snd t)), Lit '') rotate('',
          Num (js_mul (js_atan (js_div (js_sub (snd s) (snd t)) (js_sub (fst s) (fst t)))) radToDeg),
          Lit '')''])"

definition label_square_circular :: "d3env \<Rightarrow> (hnode \<Rightarrow> jsnum) \<Rightarrow> link \<Rightarrow> template" where
  "label_square_circular env dep l =
     (let u = circularPoint env (node_x (target l)) (half_sum (dep (source l)) (dep (target l)))
      in [Lit ''translate('', Num (fst u), Lit '', '', Num (snd u), Lit '') rotate('',
          Num (js_sub (js_rem (js_mul (node_x (target l)) radToDeg) (Fin 180)) (Fin 90)),
          Lit '')''])"

text \<open>In each table the smooth entry is the straight one
  (\<open>labelTransformers.tree.smooth = labelTransformers.tree.straight\<close>).\<close>

fun labelTransformers_tree :: "d3env \<Rightarrow> mode \<Rightarrow> layout \<Rightarrow> link \<Rightarrow> template" where
  "labelTransformers_tree env Straight Horizontal l = label_straight_horizontal node_y l"
| "labelTransformers_tree env Straight Vertical l = label_straight_vertical node_y l"
| "labelTransformers_tree env Straight Circular l = label_straight_circular env node_y l"
| "labelTransformers_tree env Square Horizontal l =
     [Lit ''translate('', Num (half_sum (node_y (source l)) (node_y (target l))), Lit '', '',
      Num (node_x (target l)), Lit '')'']"
| "labelTransformers_tree env Square Vertical l =
     [Lit ''translate('', Num (node_x (target l)), Lit '', '',
      Num (half_sum (node_y (source l)) (node_y (target l))), Lit '') rotate(90)'']"
| "labelTransformers_tree env Square Circular l = label_square_circular env node_y l"
| "labelTransformers_tree env Smooth Horizontal l = label_straight_horizontal node_y l"
| "labelTransformers_tree env Smooth Vertical l = label_straight_vertical node_y l"
| "labelTransformers_tree env Smooth Circular l = label_straight_circular env node_y l"

fun labelTransformers_weighted :: "d3env \<Rightarrow> mode \<Rightarrow> layout \<Rightarrow> link \<Rightarrow> template" where
  "labelTransformers_weighted env Straight Horizontal l = label_straight_horizontal node_weight l"
| "labelTransformers_weighted env Straight Vertical l = label_straight_vertical node_weight l"
| "labelTransformers_weighted env Straight Circular l = label_straight_circular env node_weight l"
| "labelTransformers_weighted env Square Horizontal l =
     [Lit ''translate('', Num (half_sum (node_weight (source l)) (node_weight (target l))),
      Lit '', '', Num (node_x (target l)), Lit '')'']"
| "labelTransformers_weighted env Square Vertical l =
     [Lit ''translate('', Num (node_x (target l)), Lit '', '',
      Num (half_sum (node_weight (source l)) (node_weight (target l))), Lit '') rotate(90)'']"
| "labelTransformers_weighted env Square Circular l = label_square_circular env node_weight l"
| "labelTransformers_weighted env Smooth Horizontal l = label_straight_horizontal node_weight l"
| "labelTransformers_weighted env Smooth Vertical l = label_straight_vertical node_weight l"
| "labelTransformers_weighted env Smooth Circular l = label_straight_circular env node_weight l"

text \<open>\<open>labelTransformers.dendrogram = labelTransformers.tree\<close>\<close>

fun labelTransformers :: "d3env \<Rightarrow> ttype \<Rightarrow> mode \<Rightarrow> layout \<Rightarrow> link \<Rightarrow> template" where
  "labelTransformers env Tree = labelTransformers_tree env"
| "labelTransformers env Weighted = labelTransformers_weighted env"
| "labelTransformers env Dendrogram = labelTransformers_tree env"

text \<open>The three attributes that \<open>redraw\<close> gives a node's label, on enter and on update:
  \<open>transform\<close>, \<open>text-anchor\<close> and \<open>x\<close>.\<close>

record label_attrs =
  label_transform :: template
  label_anchor :: string
  label_x :: jsnum

definition nodeLabel :: "layout \<Rightarrow> hnode \<Rightarrow> label_attrs" where
  "nodeLabel lay l =
     (if lay = Vertical then
        \<lparr>label_transform = [Lit ''rotate(90)''], label_anchor = ''start'', label_x = Fin 5\<rparr>
      else if lay = Horizontal then
        \<lparr>label_transform = [Lit ''rotate(0)''], label_anchor = ''start'', label_x = Fin 5\<rparr>
      else
        \<lparr>label_transform =
           [Lit ''rotate('',
            Num (js_sub (js_rem (js_mul (js_div (node_x l) Math_PI) (Fin 180)) (Fin 180)) (Fin 90)),
            Lit '')''],
         label_anchor =
           (if js_gt (js_rem (node_x l) (js_mul (Fin 2) Math_PI)) Math_PI then ''end'' else ''start''),
         label_x =
           (if js_gt (js_rem (node_x l) (js_mul (Fin 2) Math_PI)) Math_PI then Fin (- 5) else Fin 5)\<rparr>)"

text \<open>The text of a link's distance label, set when the link enters.\<close>

definition linkLabelText :: "d3env \<Rightarrow> link \<Rightarrow> string" where
  "linkLabelText env d =
     (case branch_length (node_data (target d)) of
        None \<Rightarrow> ''0.000''
      | Some l \<Rightarrow> toLocaleString env l)"

section \<open>The traversals of redraw\<close>

text \<open>\<open>this.hierarchy.each(d => d.weight = this.scalar * d.value)\<close>\<close>

fun each_weight :: "jsnum \<Rightarrow> hnode \<Rightarrow> hnode"
  and each_weight_list :: "jsnum \<Rightarrow> hnode list \<Rightarrow> hnode list" where
  "each_weight s (HNode b v w px py cs) = HNode b v (js_mul s v) px py (each_weight_list s cs)"
| "each_weight_list s [] = []"
| "each_weight_list s (c # cs) = each_weight s c # each_weight_list s cs"

text \<open>The positioning of d3 writes \<open>d.x\<close> and \<open>d.y\<close> of every node; \<open>pos\<close> gives the pair
  for the node at a path of child indices.\<close>

fun place :: "(nat list \<Rightarrow> jsnum \<times> jsnum) \<Rightarrow> nat list \<Rightarrow> hnode \<Rightarrow> hnode"
  and place_list :: "(nat list \<Rightarrow> jsnum \<times> jsnum) \<Rightarrow> nat list \<Rightarrow> nat \<Rightarrow> hnode list \<Rightarrow> hnode list"
  where
  "place pos p (HNode b v w px py cs) =
     HNode b v w (fst (pos p)) (snd (pos p)) (place_list pos p 0 cs)"
| "place_list pos p i [] = []"
| "place_list pos p i (c # cs) = place pos (p @ [i]) c # place_list pos p (Suc i) cs"

text \<open>The order of \<open>each\<close>: breadth first, every node with its parent.\<close>

function each_order :: "(hnode option \<times> hnode) list \<Rightarrow> (hnode option \<times> hnode) list" where
  "each_order [] = []"
| "each_order ((p, n) # q) = (p, n) # each_order (q @ map (\<lambda>c. (Some n, c)) (node_children n))"
  by pat_completeness auto
termination
proof (relation "measure (\<lambda>q. sum_list (map (\<lambda>pn. size (snd pn)) q))")
  show "wf (measure (\<lambda>q. sum_list (map (\<lambda>pn. size (snd pn)) q)))" by simp
next
  fix p :: "hnode option" and n :: hnode and q :: "(hnode option \<times> hnode) list"
  have "sum_list (map size (node_children n)) < size n"
    by (cases n) (simp add: size_list_conv_sum_list)
  then show "(q @ map (\<lambda>c. (Some n, c)) (node_children n), (p, n) # q)
      \<in> measure (\<lambda>q. sum_list (map (\<lambda>pn. size (snd pn)) q))"
    by (simp add: comp_def)
qed

text \<open>\<open>descendants()\<close> and \<open>links()\<close>: the nodes, and a link to every node but the root
  from its parent, in the order of \<open>each\<close>.\<close>

definition descendants :: "hnode \<Rightarrow> hnode list" where
  "descendants h = map snd (each_order [(None, h)])"

fun link_to :: "hnode option \<times> hnode \<Rightarrow> link list" where
  "link_to (None, n) = []"
| "link_to (Some p, n) = [\<lparr>source = p, target = n\<rparr>]"

definition links :: "hnode \<Rightarrow> link list" where
  "links h = concat (map link_to (each_order [(None, h)]))"

section \<open>The rendered scene and the data join\<close>

text \<open>
  The scene holds the elements of the two groups, each list in the order of the data of
  the last join; for the links, which are joined by index, this is the document order.
  An element has an identity of its own (\<open>link_el\<close>, \<open>node_el\<close>), the datum bound to it
  and the attributes that \<open>redraw\<close> computes from the data; a transition is taken at its
  end, where an exiting element is removed. Attributes that do not depend on the data
  (colours, sizes, opacities, listeners) and the ruler are left out.
\<close>

record link_elem =
  link_el :: nat
  link_datum :: link
  path_d :: template
  text_content :: string
  text_transform :: "template option"

record node_elem =
  node_el :: nat
  node_datum :: hnode
  node_class :: string
  node_text :: string
  node_label :: label_attrs
  node_transform :: template

record scene =
  container_width :: jsnum
  container_height :: jsnum
  link_elems :: "link_elem list"
  node_elems :: "node_elem list"
  next_el :: nat

text \<open>
  The data join of d3's \<open>selection.data\<close>: every datum is bound to an element of the
  selection (update) or to none (enter), and the elements left over exit. Without a key
  function the datum at index \<open>i\<close> is bound to the element at index \<open>i\<close>.
\<close>

datatype ('e, 'd) bound = Enter 'd | Update 'e 'd

fun bindIndex :: "'e list \<Rightarrow> 'd list \<Rightarrow> ('e, 'd) bound list \<times> 'e list" where
  "bindIndex [] ds = (map Enter ds, [])"
| "bindIndex (e # es) [] = ([], e # es)"
| "bindIndex (e # es) (d # ds) = (let (bs, ex) = bindIndex es ds in (Update e d # bs, ex))"

text \<open>
  With a key function: the elements are indexed by the key of their datum (an element
  whose key is already taken exits), every datum takes the element stored under its key
  and removes it from the index, and the elements still in the index exit.
\<close>

fun index_group :: "('e \<Rightarrow> string) \<Rightarrow> 'e list \<Rightarrow> (string \<rightharpoonup> 'e) \<Rightarrow> (string \<rightharpoonup> 'e) \<times> 'e list" where
  "index_group key [] m = (m, [])"
| "index_group key (e # es) m =
     (if m (key e) \<noteq> None then (let (m', ex) = index_group key es m in (m', e # ex))
      else index_group key es (m(key e \<mapsto> e)))"

fun bind_data :: "('d \<Rightarrow> string) \<Rightarrow> 'd list \<Rightarrow> (string \<rightharpoonup> 'e) \<Rightarrow> ('e, 'd) bound list \<times> (string \<rightharpoonup> 'e)" where
  "bind_data key [] m = ([], m)"
| "bind_data key (d # ds) m =
     (case m (key d) of
        Some e \<Rightarrow> (let (bs, m') = bind_data key ds (m(key d := None)) in (Update e d # bs, m'))
      | None \<Rightarrow> (let (bs, m') = bind_data key ds m in (Enter d # bs, m')))"

definition bindKey :: "('d \<Rightarrow> string) \<Rightarrow> ('e \<Rightarrow> 'd) \<Rightarrow> 'e list \<Rightarrow> 'd list \<Rightarrow> ('e, 'd) bound list \<times> 'e list" where
  "bindKey key datum es ds =
     (let (m, dup) = index_group (\<lambda>e. key (datum e)) es Map.empty;
          (bs, m') = bind_data key ds m
      in (bs, dup @ filter (\<lambda>e. m' (key (datum e)) = Some e) es))"

fun is_enter :: "('e, 'd) bound \<Rightarrow> bool" where
  "is_enter (Enter d) = True"
| "is_enter (Update e d) = False"

text \<open>\<open>selection.join\<close>: the enter function creates a new element for every entering datum,
  the update function changes the element a datum is bound to, and the exiting elements
  are removed.\<close>

fun materialize :: "(nat \<Rightarrow> 'd \<Rightarrow> 'e) \<Rightarrow> ('e \<Rightarrow> 'd \<Rightarrow> 'e) \<Rightarrow> ('e, 'd) bound list \<Rightarrow> nat \<Rightarrow> 'e list \<times> nat" where
  "materialize ent upd [] i = ([], i)"
| "materialize ent upd (Enter d # bs) i =
     (let (es, j) = materialize ent upd bs (Suc i) in (ent i d # es, j))"
| "materialize ent upd (Update e d # bs) i =
     (let (es, j) = materialize ent upd bs i in (upd e d # es, j))"

text \<open>The enter and update functions of the two joins in \<open>redraw\<close>. A link's label gets
  its text on enter only, and its transform on update only.\<close>

definition link_enter :: "d3env \<Rightarrow> ttype \<Rightarrow> mode \<Rightarrow> layout \<Rightarrow> nat \<Rightarrow> link \<Rightarrow> link_elem" where
  "link_enter env ty mo lay i d =
     \<lparr>link_el = i, link_datum = d, path_d = linkTransformers env ty mo lay d,
      text_content = linkLabelText env d, text_transform = None\<rparr>"

definition link_update :: "d3env \<Rightarrow> ttype \<Rightarrow> mode \<Rightarrow> layout \<Rightarrow> link_elem \<Rightarrow> link \<Rightarrow> link_elem" where
  "link_update env ty mo lay e d =
     e\<lparr>link_datum := d, path_d := linkTransformers env ty mo lay d,
       text_transform := Some (labelTransformers env ty mo lay d)\<rparr>"

definition node_enter :: "d3env \<Rightarrow> ttype \<Rightarrow> layout \<Rightarrow> nat \<Rightarrow> hnode \<Rightarrow> node_elem" where
  "node_enter env ty lay i d =
     \<lparr>node_el = i, node_datum = d,
      node_class = ''tidytree-node '' @
        (if node_children d \<noteq> [] then ''tidytree-node-internal'' else ''tidytree-node-leaf''),
      node_text = branch_id (node_data d),
      node_label = nodeLabel lay d,
      node_transform = nodeTransformers env ty lay d\<rparr>"

definition node_update :: "d3env \<Rightarrow> ttype \<Rightarrow> layout \<Rightarrow> node_elem \<Rightarrow> hnode \<Rightarrow> node_elem" where
  "node_update env ty lay e d =
     e\<lparr>node_datum := d, node_transform := nodeTransformers env ty lay d,
       node_label := nodeLabel lay d\<rparr>"

section \<open>The engine\<close>

text \<open>
  The fields of a \<open>TidyTree\<close> that the functions below read or write. The layout, the
  type and the mode are kept as the option that their name stands for. \<open>parent\<close> is the
  container with its scene once the tree has been drawn. The constructor sets the data
  before any other call, so \<open>data\<close>, \<open>range\<close> (here \<open>range_e\<close>) and \<open>hierarchy\<close> are
  always defined. \<open>events\<close> is the object that holds the handlers by the names of their
  events: here its own members, which are whatever the caller has stored (the
  constructor copies its \<open>events\<close> argument into it, and \<open>on\<close> stores its second
  argument as it is). Storing under the name \<open>__proto__\<close>, which replaces the object that
  the members are inherited from, is not modelled.
\<close>

record engine =
  layout :: layout
  type :: ttype
  mode :: mode
  margin :: "jsnum list"
  events :: "string \<rightharpoonup> stored"
  parent :: "scene option"
  data :: branch
  range_e :: "jsnum \<times> jsnum"
  hierarchy :: hnode
  width :: jsnum
  height :: jsnum
  scalar :: jsnum

text \<open>\<open>this.margin[i]\<close> in arithmetic: \<open>NaN\<close> beyond the end of the array.\<close>

definition margin_at :: "jsnum list \<Rightarrow> nat \<Rightarrow> jsnum" where
  "margin_at m i = (if i < length m then m ! i else NaN)"

definition redraw :: "d3env \<Rightarrow> engine \<Rightarrow> (error + unit) \<times> engine" where
  "redraw env e =
     (case parent e of
        None \<Rightarrow> (Inl TypeError, e)
      | Some sc \<Rightarrow>
          (let w = js_sub (js_sub (container_width sc) (margin_at (margin e) 0)) (margin_at (margin e) 2);
               h = js_sub (js_sub (container_height sc) (margin_at (margin e) 1)) (margin_at (margin e) 3);
               s = (if layout e = Horizontal then w
                    else (if layout e = Vertical then h else js_div (js_min w h) (Fin 2)));
               hw = each_weight s (hierarchy e);
               sz = (if layout e = Circular then (js_mul (Fin 2) Math_PI, js_div (js_min h w) (Fin 2))
                     else if layout e = Horizontal then (h, w) else (w, h));
               pos = (if type e = Tree then d3_tree env else d3_cluster env) sz hw;
               hp = place pos [] hw;
               (lb, lex) = bindIndex (link_elems sc) (links hp);
               (les, i1) = materialize (link_enter env (type e) (mode e) (layout e))
                             (link_update env (type e) (mode e) (layout e)) lb (next_el sc);
               (nb, nex) = bindKey (\<lambda>d. branch_id (node_data d)) node_datum (node_elems sc)
                             (descendants hp);
               (nes, i2) = materialize (node_enter env (type e) (layout e))
                             (node_update env (type e) (layout e)) nb i1
           in (Inr (),
               e\<lparr>width := w, height := h, scalar := s, hierarchy := hp,
                 parent := Some (sc\<lparr>link_elems := les, node_elems := nes, next_el := i2\<rparr>)\<rparr>)))"

text \<open>\<open>if(this.parent) return this.redraw(); return this;\<close>\<close>

definition redraw_if_drawn :: "d3env \<Rightarrow> engine \<Rightarrow> (error + unit) \<times> engine" where
  "redraw_if_drawn env e = (if parent e \<noteq> None then redraw env e else (Inr (), e))"

text \<open>\<open>setData\<close>; the argument is \<open>None\<close> when it is falsy. Every function returns its
  outcome and the engine as the call leaves it.\<close>

definition setData :: "d3env \<Rightarrow> branch option \<Rightarrow> engine \<Rightarrow> (error + unit) \<times> engine" where
  "setData env d e =
     (case d of
        None \<Rightarrow> (Inl (Error ''Invalid Data''), e)
      | Some b \<Rightarrow>
          (let (r, h) = normalize b
           in redraw_if_drawn env (e\<lparr>data := b, range_e := r, hierarchy := h\<rparr>)))"

definition setLayout :: "d3env \<Rightarrow> string \<Rightarrow> engine \<Rightarrow> (error + unit) \<times> engine" where
  "setLayout env newLayout e =
     (if newLayout \<notin> set validLayouts then (Inl (Error ''Cannot set TidyTree to layout:''), e)
      else redraw_if_drawn env (e\<lparr>layout := layout_named newLayout\<rparr>))"

definition setMode :: "d3env \<Rightarrow> string \<Rightarrow> engine \<Rightarrow> (error + unit) \<times> engine" where
  "setMode env newMode e =
     (if newMode \<notin> set validModes then (Inl (Error ''Cannot set TidyTree to mode:''), e)
      else redraw_if_drawn env (e\<lparr>mode := mode_named newMode\<rparr>))"

definition setType :: "d3env \<Rightarrow> string \<Rightarrow> engine \<Rightarrow> (error + unit) \<times> engine" where
  "setType env newType e =
     (if newType \<notin> set validTypes then (Inl (Error ''Cannot set TidyTree to type:''), e)
      else redraw_if_drawn env (e\<lparr>type := type_named newType\<rparr>))"

section \<open>Events\<close>

text \<open>\<open>events.split(' ')\<close>\<close>

fun split :: "char \<Rightarrow> string \<Rightarrow> string list" where
  "split c [] = [[]]"
| "split c (x # xs) =
     (if x = c then [] # split c xs
      else (case split c xs of [] \<Rightarrow> [[x]] | w # ws \<Rightarrow> (x # w) # ws))"






section \<open>Properties of trees and scenes\<close>

text \<open>
  The predicates and readings that the statements below use. A hierarchy is
  non-decreasing when the value of every child is at least the value of its parent, so
  that the values do not decrease along any path from the root to a leaf.
\<close>

fun nondecreasing :: "hnode \<Rightarrow> bool"
  and nondecreasing_from :: "jsnum \<Rightarrow> hnode list \<Rightarrow> bool" where
  "nondecreasing (HNode b v w px py cs) = nondecreasing_from v cs"
| "nondecreasing_from v [] = True"
| "nondecreasing_from v (c # cs) =
     (js_le v (node_value c) \<and> nondecreasing c \<and> nondecreasing_from v cs)"

text \<open>No branch of the tree carries a negative distance: the length that the
  normalization adds for it is not less than 0.\<close>

fun no_negative_length :: "branch \<Rightarrow> bool"
  and no_negative_length_list :: "branch list \<Rightarrow> bool" where
  "no_negative_length (Branch i l cs) =
     (\<not> js_lt (own_length (Branch i l cs)) (Fin 0) \<and> no_negative_length_list cs)"
| "no_negative_length_list [] = True"
| "no_negative_length_list (c # cs) = (no_negative_length c \<and> no_negative_length_list cs)"

text \<open>No branch of the tree carries a distance: every length is undefined or falsy.\<close>

fun no_distances :: "branch \<Rightarrow> bool"
  and no_distances_list :: "branch list \<Rightarrow> bool" where
  "no_distances (Branch i l cs) = (own_length (Branch i l cs) = Fin 0 \<and> no_distances_list cs)"
| "no_distances_list [] = True"
| "no_distances_list (c # cs) = (no_distances c \<and> no_distances_list cs)"

text \<open>What \<open>redraw\<close> leaves in \<open>this.scalar\<close>, as a function of the engine and of the
  container that it is drawn in.\<close>

definition redraw_scalar :: "engine \<Rightarrow> scene \<Rightarrow> jsnum" where
  "redraw_scalar e sc =
     (let w = js_sub (js_sub (container_width sc) (margin_at (margin e) 0)) (margin_at (margin e) 2);
          h = js_sub (js_sub (container_height sc) (margin_at (margin e) 1)) (margin_at (margin e) 3)
      in if layout e = Horizontal then w
         else if layout e = Vertical then h else js_div (js_min w h) (Fin 2))"

text \<open>
  The four margins by their sides; the array is in the order of CSS (top, right, bottom,
  left), as the comment at its default says.
\<close>

definition margin_top :: "engine \<Rightarrow> jsnum" where
  "margin_top e = margin_at (margin e) 0"

definition margin_right :: "engine \<Rightarrow> jsnum" where
  "margin_right e = margin_at (margin e) 1"

definition margin_bottom :: "engine \<Rightarrow> jsnum" where
  "margin_bottom e = margin_at (margin e) 2"

definition margin_left :: "engine \<Rightarrow> jsnum" where
  "margin_left e = margin_at (margin e) 3"

text \<open>
  The pixel budget in the words of the specification: the container's width minus the
  margins beside it (left and right) in the horizontal layout, its height minus the
  margins above and below it (top and bottom) in the vertical one, and half the smaller
  of the two in the circular one.
\<close>

definition pixel_budget :: "engine \<Rightarrow> scene \<Rightarrow> jsnum" where
  "pixel_budget e sc =
     (let w = js_sub (js_sub (container_width sc) (margin_left e)) (margin_right e);
          h = js_sub (js_sub (container_height sc) (margin_top e)) (margin_bottom e)
      in if layout e = Horizontal then w
         else if layout e = Vertical then h else js_div (js_min w h) (Fin 2))"

text \<open>The margins are finite and take as much off the height (top and bottom) as off
  the width (left and right).\<close>

definition balanced_margins :: "engine \<Rightarrow> bool" where
  "balanced_margins e =
     (case (margin_top e, margin_right e, margin_bottom e, margin_left e) of
        (Fin t, Fin r, Fin b, Fin l) \<Rightarrow> t + b = l + r
      | _ \<Rightarrow> False)"

text \<open>The link and node elements of the scene, none before the tree is drawn.\<close>

definition rendered_links :: "engine \<Rightarrow> link_elem list" where
  "rendered_links e = (case parent e of None \<Rightarrow> [] | Some sc \<Rightarrow> link_elems sc)"

definition rendered_nodes :: "engine \<Rightarrow> node_elem list" where
  "rendered_nodes e = (case parent e of None \<Rightarrow> [] | Some sc \<Rightarrow> node_elems sc)"

text \<open>What identifies a visual: the element, the id of the node it shows and, for a
  link, the text of its label.\<close>

definition link_summary :: "engine \<Rightarrow> (nat \<times> string \<times> string) list" where
  "link_summary e =
     map (\<lambda>l. (link_el l, branch_id (node_data (target (link_datum l))), text_content l))
       (rendered_links e)"

definition node_summary :: "engine \<Rightarrow> (nat \<times> string) list" where
  "node_summary e =
     map (\<lambda>n. (node_el n, branch_id (node_data (node_datum n)))) (rendered_nodes e)"

definition scene_summary :: "engine \<Rightarrow> (nat \<times> string \<times> string) list \<times> (nat \<times> string) list" where
  "scene_summary e = (link_summary e, node_summary e)"

section \<open>Examples\<close>

text \<open>
  The tree of three leaves with the distances A:1, B:2 and C:3, and the engine that the
  constructor leaves for it with the default options: first without a parent, then with
  an empty scene in a container of 700 by 500 pixels.
\<close>

definition example_tree :: branch where
  "example_tree =
     Branch ''root'' None
       [Branch ''A'' (Some (Fin 1)) [],
        Branch ''inner'' None [Branch ''B'' (Some (Fin 2)) [], Branch ''C'' (Some (Fin 3)) []]]"

definition example_engine :: engine where
  "example_engine =
     \<lparr>layout = Vertical, type = Tree, mode = Smooth,
      margin = [Fin 50, Fin 50, Fin 50, Fin 50], events = Map.empty, parent = None,
      data = example_tree, range_e = fst (normalize example_tree),
      hierarchy = snd (normalize example_tree), width = NaN, height = NaN, scalar = NaN\<rparr>"

definition example_scene :: scene where
  "example_scene =
     \<lparr>container_width = Fin 700, container_height = Fin 500,
      link_elems = [], node_elems = [], next_el = 0\<rparr>"

definition example_drawn :: engine where
  "example_drawn = example_engine\<lparr>parent := Some example_scene\<rparr>"

definition example_node :: "jsnum \<Rightarrow> jsnum \<Rightarrow> hnode" where
  "example_node px py = HNode (Branch ''A'' None []) NaN NaN px py []"

text \<open>
  A stand-in for d3 and the language in the closed examples: a node is placed by the
  depth and the indices of its path, every number prints as the same text, no result is
  rounded, and of the members that an object inherits there is \<open>toString\<close>, which returns
  \<open>[object Object]\<close> on an object like \<open>events\<close>. The theorems hold for every environment.
\<close>

definition example_env :: d3env where
  "example_env =
     \<lparr>d3_tree = (\<lambda>sz h p. (Fin (of_nat (sum_list p)), Fin (of_nat (length p)))),
      d3_cluster = (\<lambda>sz h p. (Fin (of_nat (sum_list p)), Fin (of_nat (length p)))),
      toLocaleString = (\<lambda>n. ''n''),
      fl = (\<lambda>x. x),
      Object_prototype =
        [''toString'' \<mapsto> Function (\<lambda>args. Inr (StrV ''[object Object]''))]\<rparr>"

text \<open>The same with a rounding so coarse that it can be followed by hand: down to the
  next even number.\<close>

definition coarse_env :: d3env where
  "coarse_env = example_env\<lparr>fl := (\<lambda>x. 2 * of_int \<lfloor>x / 2\<rfloor>)\<rparr>"

text \<open>A tree whose root carries a distance of its own, and a tree of a single node.\<close>

definition rooted_tree :: branch where
  "rooted_tree = Branch ''root'' (Some (Fin 1)) [Branch ''A'' (Some (Fin 1)) []]"

definition single_node :: branch where
  "single_node = Branch ''root'' None []"

text \<open>A tree of the two leaves A and B, and the same tree with a leaf C added between
  them.\<close>

definition two_leaves :: branch where
  "two_leaves =
     Branch ''root'' None [Branch ''A'' (Some (Fin 1)) [], Branch ''B'' (Some (Fin 2)) []]"

definition three_leaves :: branch where
  "three_leaves =
     Branch ''root'' None
       [Branch ''A'' (Some (Fin 1)) [], Branch ''C'' (Some (Fin 3)) [],
        Branch ''B'' (Some (Fin 2)) []]"

text \<open>A tree whose only leaf carries no distance.\<close>

definition bare_leaf :: branch where
  "bare_leaf = Branch ''root'' None [Branch ''A'' None []]"

text \<open>The tree of the two leaves in which A carries no distance.\<close>

definition two_leaves_bare :: branch where
  "two_leaves_bare = Branch ''root'' None [Branch ''A'' None [], Branch ''B'' (Some (Fin 2)) []]"

text \<open>A tree with a negative distance below its most distant node, and a tree whose
  root carries a negative distance that its only leaf does not make up for.\<close>

definition negative_tree :: branch where
  "negative_tree =
     Branch ''root'' None [Branch ''A'' (Some (Fin 2)) [Branch ''B'' (Some (Fin (- 1))) []]]"



section \<open>Facts about the arithmetic\<close>

lemma half_pi: "js_div Math_PI (Fin 2) = Fin (pi / 2)"
  by (simp add: Math_PI_def)





section \<open>Facts about the normalization\<close>

lemma snd_track_range: "snd (track_range v r) = (if js_gt v (snd r) then v else snd r)"
  by (simp add: track_range_def Let_def)

lemma js_gt_not_nan: "js_gt v hi \<Longrightarrow> v \<noteq> NaN"
  by (cases v; cases hi) (auto simp: js_gt_def)

lemma js_lt_irrefl: "\<not> js_lt v v"
  by (cases v) auto

lemma js_gt_not_lt: "js_gt v hi \<Longrightarrow> \<not> js_lt v hi"
  by (cases v; cases hi) (auto simp: js_gt_def)

lemma not_lt_trans:
  "\<not> js_lt c b \<Longrightarrow> \<not> js_lt b a \<Longrightarrow> b \<noteq> NaN \<Longrightarrow> \<not> js_lt c a"
  by (cases a; cases b; cases c) auto

lemma not_gt_trans:
  "\<not> js_gt v b \<Longrightarrow> \<not> js_lt c b \<Longrightarrow> b \<noteq> NaN \<Longrightarrow> c \<noteq> NaN \<Longrightarrow> \<not> js_gt v c"
  by (cases v; cases b; cases c) (auto simp: js_gt_def)

lemma eachBefore_max:
  "eachBefore_value pv h r = (h', r') \<Longrightarrow> snd r \<noteq> NaN \<Longrightarrow>
   snd r' \<noteq> NaN \<and> \<not> js_lt (snd r') (snd r) \<and>
   (\<forall>n\<in>set (nodes_of h'). \<not> js_gt (node_value n) (snd r')) \<and>
   (snd r' = snd r \<or> (\<exists>n\<in>set (nodes_of h'). node_value n = snd r'))"
  "eachBefore_values pv hs r = (hs', r') \<Longrightarrow> snd r \<noteq> NaN \<Longrightarrow>
   snd r' \<noteq> NaN \<and> \<not> js_lt (snd r') (snd r) \<and>
   (\<forall>n\<in>set (nodes_of_list hs'). \<not> js_gt (node_value n) (snd r')) \<and>
   (snd r' = snd r \<or> (\<exists>n\<in>set (nodes_of_list hs'). node_value n = snd r'))"
proof (induction pv h r and pv hs r arbitrary: h' r' and hs' r'
    rule: eachBefore_value_eachBefore_values.induct)
  case (1 pv b v w px py cs r)
  define v' where "v' = js_add pv (own_length b)"
  define r0 where "r0 = track_range v' r"
  obtain cs' r1 where rec: "eachBefore_values v' cs r0 = (cs', r1)"
    by (cases "eachBefore_values v' cs r0") auto
  have res: "h' = HNode b v' w px py cs'" "r' = r1"
    using "1.prems"(1) rec by (simp_all add: Let_def v'_def r0_def)
  have r0: "snd r0 = (if js_gt v' (snd r) then v' else snd r)"
    by (simp add: r0_def snd_track_range)
  have r0n: "snd r0 \<noteq> NaN" using r0 "1.prems"(2) js_gt_not_nan by auto
  have r0m: "\<not> js_lt (snd r0) (snd r)" using r0 js_gt_not_lt js_lt_irrefl by auto
  have r0v: "\<not> js_gt v' (snd r0)" using r0 js_lt_irrefl by (auto simp: js_gt_def)
  have ih: "snd r1 \<noteq> NaN \<and> \<not> js_lt (snd r1) (snd r0) \<and>
     (\<forall>n\<in>set (nodes_of_list cs'). \<not> js_gt (node_value n) (snd r1)) \<and>
     (snd r1 = snd r0 \<or> (\<exists>n\<in>set (nodes_of_list cs'). node_value n = snd r1))"
    using "1.IH"[OF refl rec[unfolded r0_def v'_def]] r0n
    by (simp add: r0_def v'_def)
  have a: "\<not> js_lt (snd r1) (snd r)" using not_lt_trans ih r0m r0n by blast
  have b: "\<not> js_gt v' (snd r1)" using not_gt_trans[OF r0v] ih r0n by blast
  have c: "snd r1 = snd r \<or> snd r1 = v' \<or> (\<exists>n\<in>set (nodes_of_list cs'). node_value n = snd r1)"
    using ih r0 by (auto split: if_splits)
  show ?case using ih a b c res by auto
next
  case (2 pv r)
  then show ?case by (auto simp: js_lt_irrefl)
next
  case (3 pv c cs r)
  obtain c' r1 where c: "eachBefore_value pv c r = (c', r1)"
    by (cases "eachBefore_value pv c r") auto
  obtain cs' r2 where cs: "eachBefore_values pv cs r1 = (cs', r2)"
    by (cases "eachBefore_values pv cs r1") auto
  have res: "hs' = c' # cs'" "r' = r2" using "3.prems"(1) c cs by simp_all
  have h1: "snd r1 \<noteq> NaN" "\<not> js_lt (snd r1) (snd r)"
     "\<forall>n\<in>set (nodes_of c'). \<not> js_gt (node_value n) (snd r1)"
     "snd r1 = snd r \<or> (\<exists>n\<in>set (nodes_of c'). node_value n = snd r1)"
    using "3.IH"(1)[OF c "3.prems"(2)] by auto
  have h2: "snd r2 \<noteq> NaN" "\<not> js_lt (snd r2) (snd r1)"
     "\<forall>n\<in>set (nodes_of_list cs'). \<not> js_gt (node_value n) (snd r2)"
     "snd r2 = snd r1 \<or> (\<exists>n\<in>set (nodes_of_list cs'). node_value n = snd r2)"
    using "3.IH"(2)[OF c[symmetric] refl cs h1(1)] by auto
  have a: "\<not> js_lt (snd r2) (snd r)" using not_lt_trans h2(2) h1(2) h1(1) by blast
  have b: "\<forall>n\<in>set (nodes_of c'). \<not> js_gt (node_value n) (snd r2)"
    using not_gt_trans h1(3) h2(2) h1(1) h2(1) by blast
  show ?case using h1 h2 a b res by auto
qed


lemma div_zero_not_finite: "\<not> is_finite (js_div v (Fin 0))"
  by (cases v) (simp_all add: signed_inf_def)

lemma nodes_of_each_divide:
  "nodes_of (each_divide m h) = map (each_divide m) (nodes_of h)"
  "nodes_of_list (each_divide_list m hs) = map (each_divide m) (nodes_of_list hs)"
  by (induction m h and m hs rule: each_divide_each_divide_list.induct) simp_all

lemma node_value_each_divide: "node_value (each_divide m h) = js_div (node_value h) m"
  by (cases h) simp

lemma own_length_not_nan: "own_length b \<noteq> NaN"
  by (auto simp: own_length_def split: option.splits)

lemma no_negative_step:
  "pv \<noteq> NaN \<Longrightarrow> pv \<noteq> NInf \<Longrightarrow> \<not> js_lt len (Fin 0) \<Longrightarrow> len \<noteq> NaN \<Longrightarrow>
   js_le pv (js_add pv len) \<and> js_add pv len \<noteq> NaN \<and> js_add pv len \<noteq> NInf"
  by (cases pv; cases len) (auto simp: js_le_def js_seq_def)

lemma hierarchy_no_negative:
  "no_negative_length d \<Longrightarrow>
   \<forall>n\<in>set (nodes_of (hierarchy_of d)). \<not> js_lt (own_length (node_data n)) (Fin 0)"
  "no_negative_length_list ds \<Longrightarrow>
   \<forall>n\<in>set (nodes_of_list (hierarchy_list ds)). \<not> js_lt (own_length (node_data n)) (Fin 0)"
  by (induction d and ds rule: hierarchy_of_hierarchy_list.induct) auto

lemma eachBefore_mono:
  "eachBefore_value pv h r = (h', r') \<Longrightarrow> pv \<noteq> NaN \<Longrightarrow> pv \<noteq> NInf \<Longrightarrow>
   \<forall>n\<in>set (nodes_of h). \<not> js_lt (own_length (node_data n)) (Fin 0) \<Longrightarrow>
   nondecreasing h' \<and> js_le pv (node_value h')"
  "eachBefore_values pv hs r = (hs', r') \<Longrightarrow> pv \<noteq> NaN \<Longrightarrow> pv \<noteq> NInf \<Longrightarrow>
   \<forall>n\<in>set (nodes_of_list hs). \<not> js_lt (own_length (node_data n)) (Fin 0) \<Longrightarrow>
   nondecreasing_from pv hs'"
proof (induction pv h r and pv hs r arbitrary: h' r' and hs' r'
    rule: eachBefore_value_eachBefore_values.induct)
  case (1 pv b v w px py cs r)
  have len: "\<not> js_lt (own_length b) (Fin 0)" using "1.prems"(4) by simp
  have step: "js_le pv (js_add pv (own_length b))" "js_add pv (own_length b) \<noteq> NaN"
    "js_add pv (own_length b) \<noteq> NInf"
    using no_negative_step[OF "1.prems"(2,3) len own_length_not_nan] by simp_all
  obtain cs' r1 where rec: "eachBefore_values (js_add pv (own_length b)) cs
      (track_range (js_add pv (own_length b)) r) = (cs', r1)"
    by (cases "eachBefore_values (js_add pv (own_length b)) cs
      (track_range (js_add pv (own_length b)) r)") auto
  have res: "h' = HNode b (js_add pv (own_length b)) w px py cs'"
    using "1.prems"(1) rec by (simp add: Let_def)
  have "nondecreasing_from (js_add pv (own_length b)) cs'"
    using "1.IH"[OF refl rec step(2,3)] "1.prems"(4) by simp
  then show ?case using res step(1) by simp
next
  case (2 pv r)
  then show ?case by auto
next
  case (3 pv c cs r)
  obtain c' r1 where c: "eachBefore_value pv c r = (c', r1)"
    by (cases "eachBefore_value pv c r") auto
  obtain cs' r2 where cs: "eachBefore_values pv cs r1 = (cs', r2)"
    by (cases "eachBefore_values pv cs r1") auto
  have res: "hs' = c' # cs'" using "3.prems"(1) c cs by simp
  have 1: "nondecreasing c' \<and> js_le pv (node_value c')"
    using "3.IH"(1)[OF c "3.prems"(2,3)] "3.prems"(4) by simp
  have 2: "nondecreasing_from pv cs'"
    using "3.IH"(2)[OF c[symmetric] refl cs "3.prems"(2,3)] "3.prems"(4) by simp
  show ?case using 1 2 res by simp
qed

lemma js_div_mono: "0 < m \<Longrightarrow> js_le a b \<Longrightarrow> js_le (js_div a (Fin m)) (js_div b (Fin m))"
  by (cases a; cases b)
     (auto simp: js_le_def js_seq_def signed_inf_def divide_strict_right_mono)

lemma each_divide_mono:
  "0 < m \<Longrightarrow> nondecreasing h \<Longrightarrow> nondecreasing (each_divide (Fin m) h)"
  "0 < m \<Longrightarrow> nondecreasing_from v hs \<Longrightarrow>
   nondecreasing_from (js_div v (Fin m)) (each_divide_list (Fin m) hs)"
proof (induction "Fin m" h and "Fin m" hs arbitrary: and v rule: each_divide_each_divide_list.induct)
  case (1 b v w px py cs)
  then show ?case by simp
next
  case 2
  then show ?case by simp
next
  case (3 c cs)
  have "js_le (js_div v (Fin m)) (node_value (each_divide (Fin m) c))"
    using "3.prems" js_div_mono by (simp add: node_value_each_divide)
  then show ?case using 3 by auto
qed

lemma node_value_hierarchy_root:
  "eachBefore_value pv h r = (h', r') \<Longrightarrow> node_value h' = js_add pv (own_length (node_data h))"
  by (cases h) (auto simp: Let_def split: prod.splits)

lemma node_data_hierarchy_of: "node_data (hierarchy_of d) = d"
  by (cases d) simp

lemma normalize_unfold:
  "normalize d = (r, h) \<Longrightarrow>
   \<exists>h0. eachBefore_value (Fin 0) (hierarchy_of d) (MAX_SAFE_INTEGER, MIN_SAFE_INTEGER) = (h0, r)
     \<and> h = each_divide (snd r) h0"
  by (auto simp: normalize_def Let_def split: prod.splits)

lemma div_not_above_one:
  "0 < m \<Longrightarrow> \<not> js_gt v (Fin m) \<Longrightarrow> \<not> js_gt (js_div v (Fin m)) (Fin 1)"
  by (cases v) (auto simp: js_gt_def signed_inf_def)

lemma div_zero_iff: "0 < m \<Longrightarrow> js_div v (Fin m) = Fin 0 \<longleftrightarrow> v = Fin 0"
  by (cases v) (auto simp: signed_inf_def)

lemma normalize_root:
  assumes n: "normalize d = (r, h)" and m: "snd r = Fin m" "0 < m"
  shows "node_value h = Fin 0 \<longleftrightarrow> own_length d = Fin 0"
proof -
  obtain h0 where eb:
    "eachBefore_value (Fin 0) (hierarchy_of d) (MAX_SAFE_INTEGER, MIN_SAFE_INTEGER) = (h0, r)"
    and h: "h = each_divide (Fin m) h0"
    using normalize_unfold[OF n] m by auto
  have "js_add (Fin 0) (own_length d) = own_length d" by (cases "own_length d") simp_all
  then have "node_value h0 = own_length d"
    using node_value_hierarchy_root[OF eb] by (simp add: node_data_hierarchy_of)
  then show ?thesis using m(2) by (simp add: h node_value_each_divide div_zero_iff)
qed

lemma normalize_max:
  assumes n: "normalize d = (r, h)" and m: "snd r = Fin m" "0 < m"
  shows "\<forall>n\<in>set (nodes_of h). \<not> js_gt (node_value n) (Fin 1)"
    and "\<exists>n\<in>set (nodes_of h). node_value n = Fin 1"
proof -
  obtain h0 where eb:
    "eachBefore_value (Fin 0) (hierarchy_of d) (MAX_SAFE_INTEGER, MIN_SAFE_INTEGER) = (h0, r)"
    and h: "h = each_divide (Fin m) h0"
    using normalize_unfold[OF n] m by auto
  have start: "snd (MAX_SAFE_INTEGER, MIN_SAFE_INTEGER) \<noteq> NaN"
    by (simp add: MIN_SAFE_INTEGER_def)
  have moved: "snd r \<noteq> snd (MAX_SAFE_INTEGER, MIN_SAFE_INTEGER)"
    using m by (simp add: MIN_SAFE_INTEGER_def)
  from eachBefore_max(1)[OF eb start] m moved
  have below: "\<forall>n\<in>set (nodes_of h0). \<not> js_gt (node_value n) (Fin m)"
    and top: "\<exists>n\<in>set (nodes_of h0). node_value n = Fin m"
    by auto
  show "\<forall>n\<in>set (nodes_of h). \<not> js_gt (node_value n) (Fin 1)"
    using below m(2) by (auto simp: h nodes_of_each_divide node_value_each_divide div_not_above_one)
  show "\<exists>n\<in>set (nodes_of h). node_value n = Fin 1"
  proof -
    obtain n where n: "n \<in> set (nodes_of h0)" "node_value n = Fin m" using top by blast
    have "node_value (each_divide (Fin m) n) = Fin 1"
      using n(2) m(2) by (simp add: node_value_each_divide)
    then show ?thesis using n(1) by (auto simp: h nodes_of_each_divide)
  qed
qed

lemma normalize_mono:
  assumes ok: "no_negative_length d" and n: "normalize d = (r, h)"
    and m: "snd r = Fin m" "0 < m"
  shows "nondecreasing h"
proof -
  obtain h0 where eb:
    "eachBefore_value (Fin 0) (hierarchy_of d) (MAX_SAFE_INTEGER, MIN_SAFE_INTEGER) = (h0, r)"
    and h: "h = each_divide (Fin m) h0"
    using normalize_unfold[OF n] m by auto
  have "nondecreasing h0"
    using eachBefore_mono(1)[OF eb _ _ hierarchy_no_negative(1)[OF ok]] by simp
  then show ?thesis using each_divide_mono(1) m(2) h by simp
qed

lemma normalize_zero_max:
  assumes n: "normalize d = (r, h)" and m: "snd r = Fin 0"
  shows "\<forall>n\<in>set (nodes_of h). \<not> is_finite (node_value n)"
  using normalize_unfold[OF n] m
  by (auto simp: nodes_of_each_divide node_value_each_divide div_zero_not_finite)

lemma track_range_zero_idem: "track_range (Fin 0) (track_range (Fin 0) r) = track_range (Fin 0) r"
  by (cases r; cases "fst r"; cases "snd r")
     (auto simp: track_range_def Let_def js_gt_def)

lemma eachBefore_no_distances:
  "eachBefore_value pv h r = (h', r') \<Longrightarrow> pv = Fin 0 \<Longrightarrow>
   \<forall>n\<in>set (nodes_of h). own_length (node_data n) = Fin 0 \<Longrightarrow>
   r' = track_range (Fin 0) r \<and> (\<forall>n\<in>set (nodes_of h'). node_value n = Fin 0)"
  "eachBefore_values pv hs r = (hs', r') \<Longrightarrow> pv = Fin 0 \<Longrightarrow>
   \<forall>n\<in>set (nodes_of_list hs). own_length (node_data n) = Fin 0 \<Longrightarrow>
   track_range (Fin 0) r = r \<Longrightarrow>
   r' = r \<and> (\<forall>n\<in>set (nodes_of_list hs'). node_value n = Fin 0)"
proof (induction pv h r and pv hs r arbitrary: h' r' and hs' r'
    rule: eachBefore_value_eachBefore_values.induct)
  case (1 pv b v w px py cs r)
  have v': "js_add pv (own_length b) = Fin 0" using "1.prems"(2,3) by simp
  obtain cs' r1 where rec: "eachBefore_values (js_add pv (own_length b)) cs
      (track_range (js_add pv (own_length b)) r) = (cs', r1)"
    by (cases "eachBefore_values (js_add pv (own_length b)) cs
      (track_range (js_add pv (own_length b)) r)") auto
  have res: "h' = HNode b (Fin 0) w px py cs'" "r' = r1"
    using "1.prems"(1) rec v' by (simp_all add: Let_def)
  have idem: "track_range (Fin 0) (track_range (js_add pv (own_length b)) r) =
      track_range (js_add pv (own_length b)) r"
    using v' track_range_zero_idem by simp
  have "r1 = track_range (js_add pv (own_length b)) r \<and>
      (\<forall>n\<in>set (nodes_of_list cs'). node_value n = Fin 0)"
    using "1.IH"[OF refl rec v' _ idem] "1.prems"(3) by simp
  then show ?case using res v' by simp
next
  case (2 pv r)
  then show ?case by auto
next
  case (3 pv c cs r)
  obtain c' r1 where c: "eachBefore_value pv c r = (c', r1)"
    by (cases "eachBefore_value pv c r") auto
  obtain cs' r2 where cs: "eachBefore_values pv cs r1 = (cs', r2)"
    by (cases "eachBefore_values pv cs r1") auto
  have res: "hs' = c' # cs'" "r' = r2" using "3.prems"(1) c cs by simp_all
  have 1: "r1 = track_range (Fin 0) r \<and> (\<forall>n\<in>set (nodes_of c'). node_value n = Fin 0)"
    using "3.IH"(1)[OF c "3.prems"(2)] "3.prems"(3) by simp
  then have r1: "r1 = r" using "3.prems"(4) by simp
  have 2: "r2 = r1 \<and> (\<forall>n\<in>set (nodes_of_list cs'). node_value n = Fin 0)"
    using "3.IH"(2)[OF c[symmetric] refl cs "3.prems"(2)] "3.prems"(3,4) r1 by simp
  show ?case using 1 2 r1 res by auto
qed

lemma hierarchy_no_distances:
  "no_distances d \<Longrightarrow> \<forall>n\<in>set (nodes_of (hierarchy_of d)). own_length (node_data n) = Fin 0"
  "no_distances_list ds \<Longrightarrow> \<forall>n\<in>set (nodes_of_list (hierarchy_list ds)). own_length (node_data n) = Fin 0"
  by (induction d and ds rule: hierarchy_of_hierarchy_list.induct) auto

lemma normalize_no_distances:
  assumes "no_distances d" and n: "normalize d = (r, h)"
  shows "r = (Fin 0, Fin 0)" and "\<forall>n\<in>set (nodes_of h). node_value n = NaN"
proof -
  obtain h0 where eb:
    "eachBefore_value (Fin 0) (hierarchy_of d) (MAX_SAFE_INTEGER, MIN_SAFE_INTEGER) = (h0, r)"
    and h: "h = each_divide (snd r) h0"
    using normalize_unfold[OF n] by auto
  have "r = track_range (Fin 0) (MAX_SAFE_INTEGER, MIN_SAFE_INTEGER) \<and>
      (\<forall>n\<in>set (nodes_of h0). node_value n = Fin 0)"
    using eachBefore_no_distances(1)[OF eb refl hierarchy_no_distances(1)[OF assms(1)]] .
  then have r: "r = (Fin 0, Fin 0)" and z: "\<forall>n\<in>set (nodes_of h0). node_value n = Fin 0"
    by (simp_all add: track_range_def MAX_SAFE_INTEGER_def MIN_SAFE_INTEGER_def js_gt_def Let_def)
  show "r = (Fin 0, Fin 0)" by (rule r)
  show "\<forall>n\<in>set (nodes_of h). node_value n = NaN"
    using z by (auto simp: h r nodes_of_each_divide node_value_each_divide)
qed

lemma subtree_nodes:
  "n \<in> set (nodes_of h) \<Longrightarrow> set (nodes_of n) \<subseteq> set (nodes_of h)"
  "n \<in> set (nodes_of_list hs) \<Longrightarrow> set (nodes_of n) \<subseteq> set (nodes_of_list hs)"
  by (induction h and hs rule: nodes_of_nodes_of_list.induct) auto

lemma subtree_nondecreasing:
  "n \<in> set (nodes_of h) \<Longrightarrow> nondecreasing h \<Longrightarrow> nondecreasing n"
  "n \<in> set (nodes_of_list hs) \<Longrightarrow> nondecreasing_from v hs \<Longrightarrow> nondecreasing n"
  by (induction h and hs arbitrary: and v rule: nodes_of_nodes_of_list.induct) auto

lemma leaf_at_top:
  "nondecreasing h \<Longrightarrow> \<forall>n\<in>set (nodes_of h). \<not> js_gt (node_value n) (Fin 1) \<Longrightarrow>
   node_value h = Fin 1 \<Longrightarrow>
   \<exists>n\<in>set (nodes_of h). node_children n = [] \<and> node_value n = Fin 1"
  "nondecreasing_from (Fin 1) hs \<Longrightarrow> \<forall>n\<in>set (nodes_of_list hs). \<not> js_gt (node_value n) (Fin 1) \<Longrightarrow>
   hs \<noteq> [] \<Longrightarrow>
   \<exists>n\<in>set (nodes_of_list hs). node_children n = [] \<and> node_value n = Fin 1"
proof (induction h and hs rule: nodes_of_nodes_of_list.induct)
  case (1 b v w px py cs)
  show ?case
  proof (cases "cs = []")
    case True
    then show ?thesis using "1.prems" by simp
  next
    case False
    then show ?thesis using 1 by auto
  qed
next
  case 2
  then show ?case by simp
next
  case (3 c cs)
  have "c \<in> set (nodes_of c)" by (cases c) simp
  then have "\<not> js_gt (node_value c) (Fin 1)" using "3.prems"(2) by simp
  moreover have "js_le (Fin 1) (node_value c)" using "3.prems"(1) by simp
  ultimately have "node_value c = Fin 1"
    by (cases "node_value c") (auto simp: js_le_def js_seq_def js_gt_def)
  then show ?case using 3 by auto
qed

section \<open>Facts about redraw\<close>

lemma each_weight_values:
  "map node_value (nodes_of (each_weight s h)) = map node_value (nodes_of h)"
  "map node_value (nodes_of_list (each_weight_list s hs)) = map node_value (nodes_of_list hs)"
  by (induction s h and s hs rule: each_weight_each_weight_list.induct) simp_all

lemma each_weight_root: "node_value (each_weight s h) = node_value h"
  by (cases h) simp

lemma each_weight_nondecreasing:
  "nondecreasing (each_weight s h) = nondecreasing h"
  "nondecreasing_from v (each_weight_list s hs) = nondecreasing_from v hs"
  by (induction s h and s hs arbitrary: and v rule: each_weight_each_weight_list.induct)
     (simp_all add: each_weight_root)

lemma each_weight_weights:
  "map node_weight (nodes_of (each_weight s h)) = map (\<lambda>n. js_mul s (node_value n)) (nodes_of h)"
  "map node_weight (nodes_of_list (each_weight_list s hs)) =
     map (\<lambda>n. js_mul s (node_value n)) (nodes_of_list hs)"
  by (induction s h and s hs rule: each_weight_each_weight_list.induct) simp_all

lemma place_root: "node_value (place pos p h) = node_value h" "node_weight (place pos p h) = node_weight h"
  by (cases h; simp)+

lemma place_values:
  "map node_value (nodes_of (place pos p h)) = map node_value (nodes_of h)"
  "map node_value (nodes_of_list (place_list pos p i hs)) = map node_value (nodes_of_list hs)"
  by (induction pos p h and pos p i hs rule: place_place_list.induct) simp_all

lemma place_weights:
  "map node_weight (nodes_of (place pos p h)) = map node_weight (nodes_of h)"
  "map node_weight (nodes_of_list (place_list pos p i hs)) = map node_weight (nodes_of_list hs)"
  by (induction pos p h and pos p i hs rule: place_place_list.induct) simp_all

lemma place_nondecreasing:
  "nondecreasing (place pos p h) = nondecreasing h"
  "nondecreasing_from v (place_list pos p i hs) = nondecreasing_from v hs"
  by (induction pos p h and pos p i hs arbitrary: and v rule: place_place_list.induct)
     (simp_all add: place_root)

lemma redraw_drawn:
  assumes "parent e = Some sc"
  shows "\<exists>pos e'. redraw env e = (Inr (), e') \<and> scalar e' = redraw_scalar e sc \<and>
     range_e e' = range_e e \<and> data e' = data e \<and>
     hierarchy e' = place pos [] (each_weight (redraw_scalar e sc) (hierarchy e))"
  using assms
  by (simp add: redraw_def redraw_scalar_def Let_def split: prod.splits) blast

lemma setData_result:
  assumes "setData env (Some d) e = (res, e')"
  shows "res = Inr () \<and> range_e e' = fst (normalize d) \<and> data e' = d \<and>
     (case parent e of
        None \<Rightarrow> hierarchy e' = snd (normalize d)
      | Some sc \<Rightarrow> scalar e' = redraw_scalar e sc \<and>
          (\<exists>pos. hierarchy e' = place pos [] (each_weight (redraw_scalar e sc) (snd (normalize d)))))"
proof (cases "parent e")
  case None
  then show ?thesis using assms
    by (auto simp: setData_def redraw_if_drawn_def split: prod.splits)
next
  case (Some sc)
  obtain r h where n: "normalize d = (r, h)" by (cases "normalize d") auto
  let ?e1 = "e\<lparr>data := d, range_e := r, hierarchy := h\<rparr>"
  have p: "parent ?e1 = Some sc" using Some by simp
  have b: "redraw_scalar ?e1 sc = redraw_scalar e sc" by (simp add: redraw_scalar_def Let_def)
  from redraw_drawn[OF p, of env] obtain pos e2 where
    "redraw env ?e1 = (Inr (), e2)" "scalar e2 = redraw_scalar ?e1 sc" "range_e e2 = r" "data e2 = d"
    "hierarchy e2 = place pos [] (each_weight (redraw_scalar ?e1 sc) h)"
    by auto
  then show ?thesis using assms Some n b
    by (auto simp: setData_def redraw_if_drawn_def)
qed

lemma setData_values:
  assumes "setData env (Some d) e = (res, e')"
  shows "res = Inr ()" and "range_e e' = fst (normalize d)"
    and "map node_value (nodes_of (hierarchy e')) = map node_value (nodes_of (snd (normalize d)))"
    and "node_value (hierarchy e') = node_value (snd (normalize d))"
    and "nondecreasing (hierarchy e') = nondecreasing (snd (normalize d))"
  using setData_result[OF assms]
  by (auto simp: place_values each_weight_values place_root each_weight_root
      place_nondecreasing each_weight_nondecreasing split: option.splits)

lemma values_transfer:
  assumes "map node_value xs = map node_value ys"
  shows "(\<forall>n\<in>set xs. P (node_value n)) = (\<forall>n\<in>set ys. P (node_value n))"
    and "(\<exists>n\<in>set xs. P (node_value n)) = (\<exists>n\<in>set ys. P (node_value n))"
proof -
  have "(\<forall>n\<in>set xs. P (node_value n)) = (\<forall>v\<in>set (map node_value xs). P v)" by simp
  also have "\<dots> = (\<forall>v\<in>set (map node_value ys). P v)" using assms by simp
  also have "\<dots> = (\<forall>n\<in>set ys. P (node_value n))" by simp
  finally show "(\<forall>n\<in>set xs. P (node_value n)) = (\<forall>n\<in>set ys. P (node_value n))" .
  have "(\<exists>n\<in>set xs. P (node_value n)) = (\<exists>v\<in>set (map node_value xs). P v)" by simp
  also have "\<dots> = (\<exists>v\<in>set (map node_value ys). P v)" using assms by simp
  also have "\<dots> = (\<exists>n\<in>set ys. P (node_value n))" by simp
  finally show "(\<exists>n\<in>set xs. P (node_value n)) = (\<exists>n\<in>set ys. P (node_value n))" .
qed

lemma weights_of_nodes:
  assumes "map node_weight xs = map (\<lambda>n. js_mul s (node_value n)) ys"
    and "map node_value xs = map node_value ys"
  shows "\<forall>n\<in>set xs. node_weight n = js_mul s (node_value n)"
proof -
  have "map (\<lambda>n. js_mul s (node_value n)) ys = map (js_mul s) (map node_value ys)" by simp
  also have "\<dots> = map (js_mul s) (map node_value xs)" using assms(2) by simp
  also have "\<dots> = map (\<lambda>n. js_mul s (node_value n)) xs" by simp
  finally have "map node_weight xs = map (\<lambda>n. js_mul s (node_value n)) xs"
    using assms(1) by simp
  then show ?thesis by (simp only: map_eq_conv)
qed

lemma js_mul_one: "js_mul s (Fin 1) = s"
  by (cases s) (simp_all add: signed_inf_def)

text \<open>With balanced margins the scalar of \<open>redraw\<close> is the pixel budget of the
  specification.\<close>

lemma sub_two_margins:
  "t + b = l + r \<Longrightarrow> js_sub (js_sub c (Fin t)) (Fin b) = js_sub (js_sub c (Fin l)) (Fin r)"
  "t + b = l + r \<Longrightarrow> js_sub (js_sub c (Fin r)) (Fin l) = js_sub (js_sub c (Fin t)) (Fin b)"
  by (cases c; simp add: js_sub_def; linarith)+

lemma scalar_is_budget:
  assumes "balanced_margins e"
  shows "redraw_scalar e sc = pixel_budget e sc"
proof -
  obtain t r b l where m: "margin_at (margin e) 0 = Fin t" "margin_at (margin e) (Suc 0) = Fin r"
    "margin_at (margin e) 2 = Fin b" "margin_at (margin e) 3 = Fin l" "t + b = l + r"
    using assms
    by (auto simp: balanced_margins_def margin_top_def margin_right_def margin_bottom_def
        margin_left_def split: jsnum.splits)
  show ?thesis
    using sub_two_margins[OF m(5)]
    by (simp add: redraw_scalar_def pixel_budget_def margin_top_def margin_right_def
        margin_bottom_def margin_left_def m Let_def)
qed

section \<open>Facts about the data join\<close>

text \<open>
  The join by index binds the datum at an index to the element at that index, whatever
  the two stand for, and creates elements for the data beyond the last element.
\<close>

lemma materialize_enter:
  "materialize ent upd (map Enter ds) i =
     (map (\<lambda>(k, d). ent k d) (zip [i ..< i + length ds] ds), i + length ds)"
proof (induction ds arbitrary: i)
  case Nil
  then show ?case by simp
next
  case (Cons d ds)
  have "[i ..< i + length (d # ds)] = i # [Suc i ..< Suc i + length ds]"
    by (subst upt_rec) simp
  then show ?case using Cons by simp
qed

lemma materialize_bindIndex:
  "materialize ent upd (fst (bindIndex es ds)) i =
     (map (\<lambda>(e, d). upd e d) (zip es ds) @
      map (\<lambda>(k, d). ent k d) (zip [i ..< i + (length ds - length es)] (drop (length es) ds)),
      i + (length ds - length es))"
proof (induction es ds rule: bindIndex.induct)
  case (1 ds)
  then show ?case by (simp add: materialize_enter)
next
  case (2 e es)
  then show ?case by simp
next
  case (3 e es d ds)
  then show ?case by (simp add: case_prod_unfold Let_def)
qed

text \<open>The join by key, for distinct keys: a datum is bound to the element whose datum
  has its key, and enters when there is none.\<close>

lemma index_group_distinct:
  "distinct (map key es) \<Longrightarrow> \<forall>e\<in>set es. m (key e) = None \<Longrightarrow>
   index_group key es m =
     (\<lambda>k. case find (\<lambda>e. key e = k) es of Some e \<Rightarrow> Some e | None \<Rightarrow> m k, [])"
proof (induction es arbitrary: m)
  case Nil
  then show ?case by simp
next
  case (Cons e es)
  have none: "m (key e) = None" using Cons.prems(2) by simp
  have d: "distinct (map key es)" using Cons.prems(1) by simp
  have "key e \<notin> key ` set es" using Cons.prems(1) by simp
  then have fresh: "key x \<noteq> key e" if "x \<in> set es" for x
    using that by (metis imageI)
  have "\<forall>x\<in>set es. (m(key e \<mapsto> e)) (key x) = None"
    using Cons.prems(2) fresh by simp
  from Cons.IH[OF d this]
  have "index_group key es (m(key e \<mapsto> e)) =
     (\<lambda>k. case find (\<lambda>e. key e = k) es of Some e \<Rightarrow> Some e | None \<Rightarrow> (m(key e \<mapsto> e)) k, [])" .
  moreover have "find (\<lambda>x. key x = key e) es = None"
    using fresh by (auto simp: find_None_iff)
  ultimately show ?case using none
    by (auto simp: fun_eq_iff split: option.splits)
qed

lemma bind_data_distinct:
  "distinct (map key ds) \<Longrightarrow>
   fst (bind_data key ds m) =
     map (\<lambda>d. case m (key d) of Some e \<Rightarrow> Update e d | None \<Rightarrow> Enter d) ds"
proof (induction ds arbitrary: m)
  case Nil
  then show ?case by simp
next
  case (Cons d ds)
  have dd: "distinct (map key ds)" using Cons.prems by simp
  have "key d \<notin> key ` set ds" using Cons.prems by simp
  then have fresh: "key x \<noteq> key d" if "x \<in> set ds" for x
    using that by (metis imageI)
  have same: "map (\<lambda>x. case (m(key d := None)) (key x) of Some e \<Rightarrow> Update e x | None \<Rightarrow> Enter x) ds =
      map (\<lambda>x. case m (key x) of Some e \<Rightarrow> Update e x | None \<Rightarrow> Enter x) ds"
    using fresh by (intro map_cong refl) simp
  show ?case
  proof (cases "m (key d)")
    case None
    then show ?thesis using Cons.IH[OF dd, of m] by (simp add: case_prod_unfold)
  next
    case (Some e)
    have "fst (bind_data key ds (m(key d := None))) =
        map (\<lambda>x. case m (key x) of Some e \<Rightarrow> Update e x | None \<Rightarrow> Enter x) ds"
      unfolding Cons.IH[OF dd, of "m(key d := None)"] by (rule same)
    then show ?thesis using Some by (simp add: case_prod_unfold)
  qed
qed

lemma bindKey_distinct:
  assumes "distinct (map (\<lambda>e. key (datum e)) es)" and "distinct (map key ds)"
  shows "fst (bindKey key datum es ds) =
     map (\<lambda>d. case find (\<lambda>e. key (datum e) = key d) es of
                 Some e \<Rightarrow> Update e d | None \<Rightarrow> Enter d) ds"
proof -
  have "index_group (\<lambda>e. key (datum e)) es Map.empty =
      (\<lambda>k. case find (\<lambda>e. key (datum e) = k) es of Some e \<Rightarrow> Some e | None \<Rightarrow> None, [])"
    using index_group_distinct[OF assms(1), of Map.empty] by simp
  then have "fst (bindKey key datum es ds) =
      fst (bind_data key ds (\<lambda>k. case find (\<lambda>e. key (datum e) = k) es of Some e \<Rightarrow> Some e | None \<Rightarrow> None))"
    by (simp add: bindKey_def split: prod.splits)
  also have "\<dots> = map (\<lambda>d. case find (\<lambda>e. key (datum e) = key d) es of
                 Some e \<Rightarrow> Update e d | None \<Rightarrow> Enter d) ds"
    unfolding bind_data_distinct[OF assms(2)]
    by (intro map_cong refl) (simp split: option.splits)
  finally show ?thesis .
qed

lemma bind_data_rest:
  "snd (bind_data key ds m) = (\<lambda>k. if k \<in> key ` set ds then None else m k)"
proof (induction ds arbitrary: m)
  case Nil
  then show ?case by simp
next
  case (Cons d ds)
  show ?case
  proof (cases "m (key d)")
    case None
    have ih: "snd (bind_data key ds m) = (\<lambda>k. if k \<in> key ` set ds then None else m k)"
      by (rule Cons)
    show ?thesis using None by (auto simp: case_prod_unfold Let_def ih fun_eq_iff)
  next
    case (Some e)
    have ih: "snd (bind_data key ds (m(key d := None))) =
        (\<lambda>k. if k \<in> key ` set ds then None else (m(key d := None)) k)"
      by (rule Cons)
    show ?thesis using Some by (auto simp: case_prod_unfold Let_def ih fun_eq_iff)
  qed
qed

lemma one_with_key:
  "distinct (map f xs) \<Longrightarrow> k \<in> f ` set xs \<Longrightarrow> length (filter (\<lambda>x. f x = k) xs) = 1"
proof (induction xs)
  case Nil
  then show ?case by simp
next
  case (Cons x xs)
  show ?case
  proof (cases "f x = k")
    case True
    then have "k \<notin> f ` set xs" using Cons.prems(1) by auto
    then have "filter (\<lambda>x. f x = k) xs = []" by (auto simp: filter_empty_conv)
    then show ?thesis using True by simp
  next
    case False
    then show ?thesis using Cons by auto
  qed
qed

text \<open>
  The join by key, when the keys of the elements and of the data are distinct and the data
  have the keys of the elements and one more: the datum with the new key enters, every
  other datum is bound to the element that has its key, and no element exits.
\<close>

lemma keyed_join_added_datum:
  assumes es: "distinct (map (\<lambda>e. key (datum e)) es)" and ds: "distinct (map key ds)"
    and keys: "key ` set ds = insert k ((\<lambda>e. key (datum e)) ` set es)"
    and new: "k \<notin> (\<lambda>e. key (datum e)) ` set es"
  shows "length (filter is_enter (fst (bindKey key datum es ds))) = 1"
    and "snd (bindKey key datum es ds) = []"
    and "\<forall>b\<in>set (fst (bindKey key datum es ds)).
           case b of Enter d \<Rightarrow> key d = k | Update e d \<Rightarrow> e \<in> set es \<and> key (datum e) = key d"
proof -
  let ?f = "\<lambda>d. case find (\<lambda>e. key (datum e) = key d) es of
                 Some e \<Rightarrow> Update e d | None \<Rightarrow> Enter d"
  have b: "fst (bindKey key datum es ds) = map ?f ds"
    by (rule bindKey_distinct[OF es ds])
  have enter: "is_enter (?f d) = (key d = k)" if "d \<in> set ds" for d
  proof (cases "find (\<lambda>e. key (datum e) = key d) es")
    case None
    then have "key d \<notin> (\<lambda>e. key (datum e)) ` set es" by (auto simp: find_None_iff)
    moreover have "key d \<in> key ` set ds" using that by simp
    ultimately have "key d = k" using keys by auto
    then show ?thesis using None by simp
  next
    case (Some e)
    then have "e \<in> set es" "key (datum e) = key d" by (auto simp: find_Some_iff)
    then have "key d \<noteq> k" using new by (metis imageI)
    then show ?thesis using Some by simp
  qed
  have "filter is_enter (map ?f ds) = map ?f (filter (\<lambda>d. key d = k) ds)"
    using enter by (simp add: filter_map comp_def cong: filter_cong)
  moreover have "length (filter (\<lambda>d. key d = k) ds) = 1"
    using one_with_key[OF ds, of k] keys by simp
  ultimately show "length (filter is_enter (fst (bindKey key datum es ds))) = 1"
    using b by simp
  show "\<forall>b\<in>set (fst (bindKey key datum es ds)).
           case b of Enter d \<Rightarrow> key d = k | Update e d \<Rightarrow> e \<in> set es \<and> key (datum e) = key d"
  proof
    fix x assume "x \<in> set (fst (bindKey key datum es ds))"
    then obtain d where d: "d \<in> set ds" "x = ?f d" using b by auto
    show "case x of Enter d \<Rightarrow> key d = k | Update e d \<Rightarrow> e \<in> set es \<and> key (datum e) = key d"
    proof (cases "find (\<lambda>e. key (datum e) = key d) es")
      case None
      then show ?thesis using d enter[OF d(1)] by simp
    next
      case (Some e)
      then have "e \<in> set es" "key (datum e) = key d" by (auto simp: find_Some_iff)
      then show ?thesis using d Some by simp
    qed
  qed
  have ig: "index_group (\<lambda>e. key (datum e)) es Map.empty =
      (\<lambda>k. case find (\<lambda>e. key (datum e) = k) es of Some e \<Rightarrow> Some e | None \<Rightarrow> None, [])"
    using index_group_distinct[OF es, of Map.empty] by simp
  have "snd (bindKey key datum es ds) =
      filter (\<lambda>e. snd (bind_data key ds
         (\<lambda>k. case find (\<lambda>e. key (datum e) = k) es of Some e \<Rightarrow> Some e | None \<Rightarrow> None))
           (key (datum e)) = Some e) es"
    by (simp add: bindKey_def ig case_prod_unfold Let_def)
  also have "\<dots> = []"
    using keys by (auto simp: bind_data_rest filter_empty_conv)
  finally show "snd (bindKey key datum es ds) = []" .
qed

section \<open>Facts about setData\<close>

lemma root_in_nodes: "h \<in> set (nodes_of h)"
  by (cases h) simp

text \<open>What \<open>setData\<close> leaves when the recorded maximum is finite and positive.\<close>

lemma setData_normalized:
  assumes "setData env (Some d) e = (res, e')"
    and "snd (range_e e') = Fin m" and "0 < m"
  shows "res = Inr () \<and>
    (node_value (hierarchy e') = Fin 0 \<longleftrightarrow> own_length d = Fin 0) \<and>
    (\<forall>n\<in>set (nodes_of (hierarchy e')). \<not> js_gt (node_value n) (Fin 1)) \<and>
    (\<exists>n\<in>set (nodes_of (hierarchy e')). node_value n = Fin 1) \<and>
    (no_negative_length d \<longrightarrow> nondecreasing (hierarchy e'))"
proof -
  obtain r h where n: "normalize d = (r, h)" by (cases "normalize d") auto
  note sv = setData_values[OF assms(1)]
  have m: "snd r = Fin m" using sv(2) n assms(2) by simp
  have "\<forall>n\<in>set (nodes_of (hierarchy e')). \<not> js_gt (node_value n) (Fin 1)"
    using values_transfer(1)[OF sv(3), of "\<lambda>v. \<not> js_gt v (Fin 1)"] n
      normalize_max(1)[OF n m assms(3)] by simp
  moreover have "\<exists>n\<in>set (nodes_of (hierarchy e')). node_value n = Fin 1"
    using values_transfer(2)[OF sv(3), of "\<lambda>v. v = Fin 1"] n
      normalize_max(2)[OF n m assms(3)] by simp
  moreover have "node_value (hierarchy e') = Fin 0 \<longleftrightarrow> own_length d = Fin 0"
    using sv(4) n normalize_root[OF n m assms(3)] by simp
  moreover have "nondecreasing (hierarchy e')" if "no_negative_length d"
    using sv(5) n normalize_mono[OF that n m assms(3)] by simp
  ultimately show ?thesis using sv(1) by blast
qed

text \<open>The links of a scene after \<open>setData\<close> on a drawn engine.\<close>

lemma setData_link_elems:
  assumes "parent e = Some sc"
  shows "\<exists>hp. rendered_links (snd (setData env (Some d) e)) =
     fst (materialize (link_enter env (type e) (mode e) (layout e))
            (link_update env (type e) (mode e) (layout e))
            (fst (bindIndex (link_elems sc) (links hp))) (next_el sc))"
  using assms
  by (simp add: setData_def redraw_if_drawn_def redraw_def rendered_links_def Let_def
      case_prod_unfold split del: if_split) (rule exI, rule refl)

lemma first_draw_link_texts:
  assumes "parent e = Some sc" and "link_elems sc = []"
  shows "\<forall>l\<in>set (rendered_links (snd (setData env (Some d) e))).
     text_content l = linkLabelText env (link_datum l)"
proof -
  obtain hp where "rendered_links (snd (setData env (Some d) e)) =
     fst (materialize (link_enter env (type e) (mode e) (layout e))
            (link_update env (type e) (mode e) (layout e))
            (fst (bindIndex (link_elems sc) (links hp))) (next_el sc))"
    using setData_link_elems[OF assms(1)] by blast
  then have "rendered_links (snd (setData env (Some d) e)) =
     map (\<lambda>(k, x). link_enter env (type e) (mode e) (layout e) k x)
       (zip [next_el sc ..< next_el sc + length (links hp)] (links hp))"
    using assms(2) by (simp add: materialize_enter)
  then show ?thesis by (auto simp: link_enter_def)
qed

section \<open>The examples, evaluated\<close>

lemmas normalize_eval = normalize_def own_length_def track_range_def
  MAX_SAFE_INTEGER_def MIN_SAFE_INTEGER_def js_gt_def Let_def

lemma normalize_example:
  "normalize example_tree =
     ((Fin 0, Fin 3),
      HNode example_tree (Fin 0) NaN NaN NaN
        [HNode (Branch ''A'' (Some (Fin 1)) []) (Fin (1 / 3)) NaN NaN NaN [],
         HNode (Branch ''inner'' None [Branch ''B'' (Some (Fin 2)) [], Branch ''C'' (Some (Fin 3)) []])
           (Fin 0) NaN NaN NaN
           [HNode (Branch ''B'' (Some (Fin 2)) []) (Fin (2 / 3)) NaN NaN NaN [],
            HNode (Branch ''C'' (Some (Fin 3)) []) (Fin 1) NaN NaN NaN []]])"
  by (simp add: normalize_eval example_tree_def)

lemma normalize_rooted:
  "normalize rooted_tree =
     ((Fin 1, Fin 2),
      HNode rooted_tree (Fin (1 / 2)) NaN NaN NaN
        [HNode (Branch ''A'' (Some (Fin 1)) []) (Fin 1) NaN NaN NaN []])"
  by (simp add: normalize_eval rooted_tree_def)

lemma normalize_single:
  "normalize single_node = ((Fin 0, Fin 0), HNode single_node NaN NaN NaN NaN [])"
  by (simp add: normalize_eval single_node_def)

lemma normalize_two:
  "normalize two_leaves =
     ((Fin 0, Fin 2),
      HNode two_leaves (Fin 0) NaN NaN NaN
        [HNode (Branch ''A'' (Some (Fin 1)) []) (Fin (1 / 2)) NaN NaN NaN [],
         HNode (Branch ''B'' (Some (Fin 2)) []) (Fin 1) NaN NaN NaN []])"
  by (simp add: normalize_eval two_leaves_def)

lemma normalize_three:
  "normalize three_leaves =
     ((Fin 0, Fin 3),
      HNode three_leaves (Fin 0) NaN NaN NaN
        [HNode (Branch ''A'' (Some (Fin 1)) []) (Fin (1 / 3)) NaN NaN NaN [],
         HNode (Branch ''C'' (Some (Fin 3)) []) (Fin 1) NaN NaN NaN [],
         HNode (Branch ''B'' (Some (Fin 2)) []) (Fin (2 / 3)) NaN NaN NaN []])"
  by (simp add: normalize_eval three_leaves_def)

lemma normalize_bare:
  "normalize bare_leaf =
     ((Fin 0, Fin 0),
      HNode bare_leaf NaN NaN NaN NaN [HNode (Branch ''A'' None []) NaN NaN NaN NaN []])"
  by (simp add: normalize_eval bare_leaf_def)

lemma normalize_two_bare:
  "normalize two_leaves_bare =
     ((Fin 0, Fin 2),
      HNode two_leaves_bare (Fin 0) NaN NaN NaN
        [HNode (Branch ''A'' None []) (Fin 0) NaN NaN NaN [],
         HNode (Branch ''B'' (Some (Fin 2)) []) (Fin 1) NaN NaN NaN []])"
  by (simp add: normalize_eval two_leaves_bare_def)

lemma normalize_negative:
  "normalize negative_tree =
     ((Fin 0, Fin 2),
      HNode negative_tree (Fin 0) NaN NaN NaN
        [HNode (Branch ''A'' (Some (Fin 2)) [Branch ''B'' (Some (Fin (- 1))) []]) (Fin 1) NaN NaN NaN
           [HNode (Branch ''B'' (Some (Fin (- 1))) []) (Fin (1 / 2)) NaN NaN NaN []]])"
  by (simp add: normalize_eval negative_tree_def)



lemmas redraw_eval = setData_def redraw_if_drawn_def example_engine_def example_drawn_def
  example_scene_def redraw_def margin_at_def Let_def js_sub_def links_def descendants_def
  bindKey_def link_enter_def link_update_def node_enter_def node_update_def linkLabelText_def
  rendered_links_def rendered_nodes_def link_summary_def node_summary_def

lemma example_ids:
  "branch_id two_leaves = ''root''" "branch_id three_leaves = ''root''"
  "branch_id two_leaves_bare = ''root''"
  by (simp_all add: two_leaves_def three_leaves_def two_leaves_bare_def)

section \<open>Normalized values\<close>




section \<open>Identity of the visuals across a redraw\<close>

text \<open>
  C2, at an input where the code departs from it. The tree of the leaves A and B is
  drawn, then the tree with the leaf C added between them is set. The nodes are joined
  by the id of their data: the elements of the root, of A and of B stay theirs and C gets
  a new one. The links are joined by index: the element that showed the link to B is
  bound to the link to C and keeps the text of B's distance, and the link to B gets a new
  element.
\<close>

theorem links_rebound_by_index:
  "scene_summary (snd (setData env (Some two_leaves) example_drawn)) =
     ([(0, ''A'', toLocaleString env (Fin 1)), (1, ''B'', toLocaleString env (Fin 2))],
      [(2, ''root''), (3, ''A''), (4, ''B'')]) \<and>
   scene_summary (snd (setData env (Some three_leaves)
       (snd (setData env (Some two_leaves) example_drawn)))) =
     ([(0, ''A'', toLocaleString env (Fin 1)), (1, ''C'', toLocaleString env (Fin 2)),
       (5, ''B'', toLocaleString env (Fin 2))],
      [(2, ''root''), (3, ''A''), (6, ''C''), (4, ''B'')])"
proof -
  have first: "scene_summary (snd (setData env (Some two_leaves) example_drawn)) =
     ([(0, ''A'', toLocaleString env (Fin 1)), (1, ''B'', toLocaleString env (Fin 2))],
      [(2, ''root''), (3, ''A''), (4, ''B'')])"
    by (simp add: redraw_eval normalize_two scene_summary_def example_ids)
  have second: "scene_summary (snd (setData env (Some three_leaves)
       (snd (setData env (Some two_leaves) example_drawn)))) =
     ([(0, ''A'', toLocaleString env (Fin 1)), (1, ''C'', toLocaleString env (Fin 2)),
       (5, ''B'', toLocaleString env (Fin 2))],
      [(2, ''root''), (3, ''A''), (6, ''C''), (4, ''B'')])"
    by (simp add: redraw_eval normalize_two normalize_three scene_summary_def example_ids)
  show ?thesis using first second by simp
qed

section \<open>Rejected options\<close>

text \<open>
  C3. A name that is not in the list of valid layouts makes \<open>setLayout\<close> raise an error
  and leaves the engine, with its layout, type, mode and scene, exactly as it was; the
  same holds for \<open>setType\<close> and \<open>setMode\<close> and their lists.
\<close>

theorem invalid_option_rejected:
  "(s \<notin> set validLayouts \<longrightarrow> (\<exists>err. setLayout env s e = (Inl err, e))) \<and>
   (s \<notin> set validTypes \<longrightarrow> (\<exists>err. setType env s e = (Inl err, e))) \<and>
   (s \<notin> set validModes \<longrightarrow> (\<exists>err. setMode env s e = (Inl err, e)))"
  by (simp add: setLayout_def setType_def setMode_def)

theorem invalid_option_rejected_witness:
  "''diagonal'' \<notin> set validLayouts \<and> ''diagonal'' \<notin> set validTypes \<and>
   ''diagonal'' \<notin> set validModes \<and>
   (\<forall>env. (\<exists>err. setLayout env ''diagonal'' example_engine = (Inl err, example_engine)) \<and>
          (\<exists>err. setType env ''diagonal'' example_engine = (Inl err, example_engine)) \<and>
          (\<exists>err. setMode env ''diagonal'' example_engine = (Inl err, example_engine)))"
  using invalid_option_rejected [of "''diagonal''" _ example_engine]
  by (simp add: validLayouts_def validTypes_def validModes_def)

section \<open>Square links of the circular layout\<close>



text \<open>
  With a rounding, two angles that differ can give the same computed angle, and then the
  path has no arc: here the angles 0 and 1/2 under the coarse rounding of the examples.
\<close>

lemma close_angles_no_arc:
  "linkTransformers coarse_env Tree Square Circular
     \<lparr>source = example_node (Fin 0) (Fin 1), target = example_node (Fin (1 / 2)) (Fin 2)\<rparr> =
   [Lit ''M'', Num (Fin (cos (- 2))), Lit '','', Num (Fin (sin (- 2))),
    Lit ''L'', Num (Fin (2 * cos (- 2))), Lit '','', Num (Fin (2 * sin (- 2)))]"
proof -
  have "- 1 \<le> - (pi / 4)" "- (pi / 4) < 0" using pi_less_4 pi_gt_zero by simp_all
  then have f0: "\<lfloor>- (pi / 4)\<rfloor> = - 1" by (simp add: floor_eq_iff)
  have "- 1 \<le> (1 / 2 - pi / 2) / 2" "(1 / 2 - pi / 2) / 2 < 0"
    using pi_less_4 pi_ge_two by simp_all
  then have f1: "\<lfloor>(1 / 2 - pi / 2) / 2\<rfloor> = - 1" by (simp add: floor_eq_iff)
  have a0: "minus_half_pi coarse_env (Fin 0) = Fin (- 2)"
    using f0 by (simp add: minus_half_pi_def coarse_env_def js_sub_def half_pi)
  have a1: "minus_half_pi coarse_env (Fin (1 / 2)) = Fin (- 2)"
    using f1 by (simp add: minus_half_pi_def coarse_env_def js_sub_def half_pi)
  show ?thesis
    by (simp add: square_circular_def example_node_def a0 a1 js_seq_def Let_def)
qed



section \<open>Weights\<close>

text \<open>
  The array of the margins is read at the indices 0 and 2 for the width and at 1 and 3
  for the height, which by the order of the array are the margins above and below for
  the width and those beside for the height. With the margins 10, 20, 30, 30 in a
  container of 700 by 500 the scalar of the horizontal layout is 660, where the width
  minus the margins beside it is 650.
\<close>

lemma unbalanced_margins_scalar:
  "redraw_scalar (example_engine\<lparr>layout := Horizontal, margin := [Fin 10, Fin 20, Fin 30, Fin 30]\<rparr>)
     example_scene = Fin 660 \<and>
   pixel_budget (example_engine\<lparr>layout := Horizontal, margin := [Fin 10, Fin 20, Fin 30, Fin 30]\<rparr>)
     example_scene = Fin 650"
  by (simp add: redraw_scalar_def pixel_budget_def example_engine_def example_scene_def
      margin_at_def margin_left_def margin_right_def js_sub_def)

text \<open>
  C5, as the code has it. When the data is set on a drawn engine, \<open>redraw\<close> gives every
  node the weight \<open>scalar * value\<close>, whatever the type, where \<open>value\<close> is the node's
  normalized cumulative distance. When the margins are finite and take as much off the
  height as off the width (as the default margins do), the scalar is the pixel budget:
  the container's width minus the margins beside it in the horizontal layout, its height
  minus the margins above and below it in the vertical one, and half the smaller of the
  two in the circular one. When the recorded maximum of the cumulative distances is
  finite and positive, the weight of a most distant node (one whose normalized value
  is 1) is the whole scalar; such a node is a leaf when no branch carries a negative
  distance; and the weight of the root is 0 when the root carries no distance of its own
  and the scalar is finite.
\<close>

theorem weight_is_budget_times_value:
  assumes "parent e = Some sc" and "setData env (Some d) e = (res, e')"
  shows "(\<forall>n\<in>set (nodes_of (hierarchy e')). node_weight n = js_mul (scalar e') (node_value n)) \<and>
    (balanced_margins e \<longrightarrow> scalar e' = pixel_budget e sc) \<and>
    ((\<exists>m>0. snd (range_e e') = Fin m) \<longrightarrow>
       (\<exists>n\<in>set (nodes_of (hierarchy e')). node_value n = Fin 1 \<and> node_weight n = scalar e') \<and>
       (no_negative_length d \<longrightarrow>
          (\<exists>n\<in>set (nodes_of (hierarchy e')).
             node_children n = [] \<and> node_value n = Fin 1 \<and> node_weight n = scalar e')) \<and>
       (own_length d = Fin 0 \<and> is_finite (scalar e') \<longrightarrow> node_weight (hierarchy e') = Fin 0))"
proof -
  from setData_result[OF assms(2)] assms(1) obtain pos where
    s: "scalar e' = redraw_scalar e sc" and
    h: "hierarchy e' = place pos [] (each_weight (redraw_scalar e sc) (snd (normalize d)))"
    by auto
  have w: "\<forall>n\<in>set (nodes_of (hierarchy e')). node_weight n = js_mul (scalar e') (node_value n)"
    by (rule weights_of_nodes[where ys = "nodes_of (snd (normalize d))"])
       (simp_all add: h s place_weights place_values each_weight_weights each_weight_values)
  have b: "scalar e' = pixel_budget e sc" if "balanced_margins e"
    using s scalar_is_budget[OF that] by simp
  have p: "(\<exists>n\<in>set (nodes_of (hierarchy e')). node_value n = Fin 1 \<and> node_weight n = scalar e') \<and>
       (no_negative_length d \<longrightarrow>
          (\<exists>n\<in>set (nodes_of (hierarchy e')).
             node_children n = [] \<and> node_value n = Fin 1 \<and> node_weight n = scalar e')) \<and>
       (own_length d = Fin 0 \<and> is_finite (scalar e') \<longrightarrow> node_weight (hierarchy e') = Fin 0)"
    if m: "snd (range_e e') = Fin m" "0 < m" for m
  proof -
    from setData_normalized[OF assms(2) m] have
      root: "node_value (hierarchy e') = Fin 0 \<longleftrightarrow> own_length d = Fin 0" and
      le: "\<forall>n\<in>set (nodes_of (hierarchy e')). \<not> js_gt (node_value n) (Fin 1)" and
      top: "\<exists>n\<in>set (nodes_of (hierarchy e')). node_value n = Fin 1" and
      mono: "no_negative_length d \<longrightarrow> nondecreasing (hierarchy e')"
      by auto
    obtain t where t: "t \<in> set (nodes_of (hierarchy e'))" "node_value t = Fin 1"
      using top by blast
    have 1: "\<exists>n\<in>set (nodes_of (hierarchy e')). node_value n = Fin 1 \<and> node_weight n = scalar e'"
      using t w by (auto simp: js_mul_one)
    have 2: "\<exists>n\<in>set (nodes_of (hierarchy e')).
             node_children n = [] \<and> node_value n = Fin 1 \<and> node_weight n = scalar e'"
      if "no_negative_length d"
    proof -
      have nd: "nondecreasing (hierarchy e')" using mono that by simp
      have "\<exists>n\<in>set (nodes_of t). node_children n = [] \<and> node_value n = Fin 1"
        using leaf_at_top(1)[OF subtree_nondecreasing(1)[OF t(1) nd] _ t(2)] le
          subtree_nodes(1)[OF t(1)]
        by blast
      then obtain n where n: "n \<in> set (nodes_of (hierarchy e'))" "node_children n = []"
        "node_value n = Fin 1"
        using subtree_nodes(1)[OF t(1)] by blast
      then have "node_weight n = scalar e'" using w by (simp add: js_mul_one)
      then show ?thesis using n by blast
    qed
    have 3: "node_weight (hierarchy e') = Fin 0"
      if o: "own_length d = Fin 0" and f: "is_finite (scalar e')"
    proof -
      obtain b where b: "scalar e' = Fin b" using f by (cases "scalar e'") auto
      show ?thesis using w root o b root_in_nodes by simp
    qed
    show ?thesis using 1 2 3 by blast
  qed
  show ?thesis using w b p by blast
qed

theorem weight_is_budget_times_value_witness:
  "parent example_drawn = Some example_scene \<and> balanced_margins example_drawn \<and>
   no_negative_length example_tree \<and> own_length example_tree = Fin 0 \<and>
   snd (range_e (snd (setData example_env (Some example_tree) example_drawn))) = Fin 3 \<and>
   pixel_budget example_drawn example_scene = Fin 400 \<and>
   scalar (snd (setData example_env (Some example_tree) example_drawn)) = Fin 400 \<and>
   node_weight (hierarchy (snd (setData example_env (Some example_tree) example_drawn))) = Fin 0 \<and>
   (\<exists>n\<in>set (nodes_of (hierarchy (snd (setData example_env (Some example_tree) example_drawn)))).
      node_children n = [] \<and> node_value n = Fin 1 \<and> node_weight n = Fin 400)"
proof -
  let ?r = "setData example_env (Some example_tree) example_drawn"
  have p: "parent example_drawn = Some example_scene"
    by (simp add: example_drawn_def)
  have bal: "balanced_margins example_drawn"
    by (simp add: balanced_margins_def margin_top_def margin_right_def margin_bottom_def
        margin_left_def margin_at_def example_drawn_def example_engine_def)
  have ok: "no_negative_length example_tree" "own_length example_tree = Fin 0"
    by (simp_all add: example_tree_def own_length_def)
  have r: "snd (range_e (snd ?r)) = Fin 3"
    using setData_values(2)[of example_env example_tree example_drawn "fst ?r" "snd ?r"]
    by (simp add: normalize_example)
  have b: "pixel_budget example_drawn example_scene = Fin 400"
    by (simp add: pixel_budget_def margin_top_def margin_bottom_def margin_left_def
        margin_right_def example_drawn_def example_engine_def example_scene_def
        margin_at_def js_sub_def)
  have eq: "?r = (fst ?r, snd ?r)" by simp
  note t = weight_is_budget_times_value [OF p eq]
  have s: "scalar (snd ?r) = Fin 400" using t bal b by simp
  have f: "is_finite (scalar (snd ?r))" using s by simp
  have m: "\<exists>m>0. snd (range_e (snd ?r)) = Fin m" using r by simp
  have concl: "node_weight (hierarchy (snd ?r)) = Fin 0 \<and>
      (\<exists>n\<in>set (nodes_of (hierarchy (snd ?r))).
         node_children n = [] \<and> node_value n = Fin 1 \<and> node_weight n = scalar (snd ?r))"
    using t m ok f by blast
  show ?thesis using p bal ok r b s concl by simp
qed

text \<open>
  Stated for every tree, the last part fails. When the root carries a distance of its
  own (root:1 with the leaf A:1), the root's weight is not 0 but half of the budget of
  400. When a branch carries a negative distance (root, A:2, below it B:-1), the only
  leaf is not the most distant node, and its weight is half of the budget.
\<close>

theorem weight_counterexample:
  "node_weight (hierarchy (snd (setData example_env (Some rooted_tree) example_drawn))) = Fin 200 \<and>
   node_weight (hierarchy (snd (setData example_env (Some rooted_tree) example_drawn))) \<noteq> Fin 0 \<and>
   scalar (snd (setData example_env (Some negative_tree) example_drawn)) = Fin 400 \<and>
   map node_value (nodes_of (hierarchy (snd (setData example_env (Some negative_tree) example_drawn))))
     = [Fin 0, Fin 1, Fin (1 / 2)] \<and>
   map node_weight (nodes_of (hierarchy (snd (setData example_env (Some negative_tree) example_drawn))))
     = [Fin 0, Fin 400, Fin 200] \<and>
   map length (map node_children
     (nodes_of (hierarchy (snd (setData example_env (Some negative_tree) example_drawn)))))
     = [1, 1, 0]"
  by (simp add: redraw_eval normalize_rooted normalize_negative split: prod.splits)

section \<open>Node labels of the circular layout\<close>



section \<open>The point of an angle and a radius\<close>



section \<open>Link labels\<close>

text \<open>
  The text that a link's distance label is created with: the string 0.000, which is not
  blank, when the child of the link has no length. When the data is set on a scene that
  has no links yet, every link is new and carries the text of its own child.
\<close>

lemma link_label_on_enter:
  "(branch_length (node_data (target d)) = None \<longrightarrow>
      linkLabelText env d = ''0.000'' \<and>
      text_content (link_enter env ty mo lay i d) = ''0.000'' \<and>
      text_content (link_enter env ty mo lay i d) \<noteq> []) \<and>
   (parent e = Some sc \<and> link_elems sc = [] \<longrightarrow>
      (\<forall>l\<in>set (rendered_links (snd (setData env (Some b) e))).
         branch_length (node_data (target (link_datum l))) = None \<longrightarrow> text_content l = ''0.000''))"
proof -
  have "\<forall>l\<in>set (rendered_links (snd (setData env (Some b) e))).
         branch_length (node_data (target (link_datum l))) = None \<longrightarrow> text_content l = ''0.000''"
    if "parent e = Some sc" "link_elems sc = []"
    using first_draw_link_texts[OF that, of env b] by (simp add: linkLabelText_def)
  then show ?thesis by (simp add: linkLabelText_def link_enter_def)
qed

text \<open>The update of a link's element changes its datum, its path and the transform of
  its label, and leaves the text of the label as it was.\<close>

lemma link_update_keeps_text: "text_content (link_update env ty mo lay el d) = text_content el"
  by (simp add: link_update_def)

text \<open>
  C8, at an input where the code departs from it. The tree of the leaves A:1 and B:2 is
  drawn, then the same tree in which A has no length is set. The link to A is still shown
  by the element 0, whose datum now has a child without a length, but the label of the
  element keeps the text that it was created with, the printed 1, where the text for
  its datum is 0.000: the text is set when a link enters and never when it is updated.
  The link to B, whose length has not changed, is shown for comparison.
\<close>

theorem link_label_stale_after_update:
  "map (\<lambda>l. (link_el l, branch_id (node_data (target (link_datum l))),
              branch_length (node_data (target (link_datum l))), text_content l,
              linkLabelText env (link_datum l)))
     (rendered_links (snd (setData env (Some two_leaves_bare)
        (snd (setData env (Some two_leaves) example_drawn))))) =
   [(0, ''A'', None, toLocaleString env (Fin 1), ''0.000''),
    (1, ''B'', Some (Fin 2), toLocaleString env (Fin 2), toLocaleString env (Fin 2))]"
  by (simp add: redraw_eval normalize_two normalize_two_bare example_ids)

section \<open>A maximum of zero\<close>

text \<open>
  C9. \<open>setData\<close> raises no error for any tree. When the recorded maximum of the cumulative
  distances is 0, the division leaves no node with a finite value; in a tree where no
  node carries a distance, a single root for one, the maximum is 0 and every value is
  \<open>NaN\<close>.
\<close>

theorem zero_maximum_not_finite:
  assumes "setData env (Some d) e = (res, e')"
  shows "res = Inr () \<and>
    (snd (range_e e') = Fin 0 \<longrightarrow>
       (\<forall>n\<in>set (nodes_of (hierarchy e')). \<not> is_finite (node_value n))) \<and>
    (no_distances d \<longrightarrow>
       snd (range_e e') = Fin 0 \<and> (\<forall>n\<in>set (nodes_of (hierarchy e')). node_value n = NaN))"
proof -
  obtain r h where n: "normalize d = (r, h)" by (cases "normalize d") auto
  note sv = setData_values[OF assms]
  have same: "map node_value (nodes_of (hierarchy e')) = map node_value (nodes_of h)"
    using sv(3) n by simp
  have 1: "snd (range_e e') = Fin 0 \<longrightarrow>
       (\<forall>n\<in>set (nodes_of (hierarchy e')). \<not> is_finite (node_value n))"
    using normalize_zero_max[OF n] sv(2) n
      values_transfer(1)[OF same, of "\<lambda>v. \<not> is_finite v"] by simp
  have 2: "no_distances d \<longrightarrow>
       snd (range_e e') = Fin 0 \<and> (\<forall>n\<in>set (nodes_of (hierarchy e')). node_value n = NaN)"
    using normalize_no_distances[OF _ n] sv(2) n
      values_transfer(1)[OF same, of "\<lambda>v. v = NaN"] by simp
  show ?thesis using sv(1) 1 2 by blast
qed

theorem zero_maximum_not_finite_witness:
  "no_distances single_node \<and>
   snd (range_e (snd (setData example_env (Some single_node) example_engine))) = Fin 0 \<and>
   fst (setData example_env (Some single_node) example_engine) = Inr () \<and>
   node_value (hierarchy (snd (setData example_env (Some single_node) example_engine))) = NaN \<and>
   \<not> is_finite (node_value (hierarchy (snd (setData example_env (Some single_node) example_engine))))"
  using zero_maximum_not_finite [of example_env single_node example_engine
      "fst (setData example_env (Some single_node) example_engine)"
      "snd (setData example_env (Some single_node) example_engine)"]
  by (simp add: setData_def redraw_if_drawn_def example_engine_def normalize_single)
     (simp add: single_node_def own_length_def)

section \<open>Triggering events\<close>






end
